theory Spec2Isabelle
  imports Main "HOL-Library.Sublist"
begin

section \<open>Python values and exceptions\<close>

text \<open>
  The ingestors pass untyped Python values around: JSON documents decoded from the HTTP
  response, cells of a pandas frame, and the values of the row dictionaries handed to the
  database driver. One datatype covers them all. A dictionary is an association list whose
  keys are strings (JSON object keys, frame column names); lookup takes the first binding.
  A float is carried as the text Python's \<open>str\<close> gives for it: the ingestors do no
  floating-point arithmetic on the values they move, they only test them and print them.
\<close>

datatype pyval =
    PNone
  | PBool bool
  | PInt int
  | PFloat string
  | PStr string
  | PList "pyval list"
  | PDict "(string \<times> pyval) list"

text \<open>
  Exceptions. \<open>Raised c m\<close> is an exception of class \<open>c\<close> with message \<open>m\<close> raised
  by a collaborator outside the repository (the HTTP client, the file reader, the database
  driver). \<open>RetryError e\<close> is what the \<open>tenacity\<close> decorator raises when it gives up;
  it carries the failure of the last attempt.
\<close>

datatype exn =
    AttributeError
  | TypeError
  | KeyError
  | ValueError string
  | RetryError exn
  | Raised string string

fun exn_class :: "exn \<Rightarrow> string" where
  "exn_class AttributeError = ''AttributeError''"
| "exn_class TypeError = ''TypeError''"
| "exn_class KeyError = ''KeyError''"
| "exn_class (ValueError m) = ''ValueError''"
| "exn_class (RetryError e) = ''RetryError''"
| "exn_class (Raised c m) = c"

text \<open>Sequencing of computations that may raise: the first exception wins.\<close>

fun bnd :: "exn + 'a \<Rightarrow> ('a \<Rightarrow> exn + 'b) \<Rightarrow> exn + 'b" where
  "bnd (Inl e) f = Inl e"
| "bnd (Inr v) f = f v"

text \<open>\<open>bool(v)\<close>: the truth value Python gives a value in \<open>if v\<close> and \<open>not v\<close>.\<close>

fun truthy :: "pyval \<Rightarrow> bool" where
  "truthy PNone = False"
| "truthy (PBool b) = b"
| "truthy (PInt i) = (i \<noteq> 0)"
| "truthy (PFloat s) = (s \<noteq> ''0.0'' \<and> s \<noteq> ''-0.0'')"
| "truthy (PStr s) = (s \<noteq> [])"
| "truthy (PList xs) = (xs \<noteq> [])"
| "truthy (PDict kvs) = (kvs \<noteq> [])"

text \<open>\<open>d.get(k, default)\<close> on a dictionary.\<close>

definition dict_get :: "(string \<times> pyval) list \<Rightarrow> string \<Rightarrow> pyval \<Rightarrow> pyval" where
  "dict_get d k dflt = (case map_of d k of None \<Rightarrow> dflt | Some v \<Rightarrow> v)"

text \<open>
  \<open>v.get(k, default)\<close> on an arbitrary value: only dictionaries have the method, every
  other value raises \<open>AttributeError\<close>.
\<close>

fun py_get :: "pyval \<Rightarrow> string \<Rightarrow> pyval \<Rightarrow> exn + pyval" where
  "py_get (PDict d) k dflt = Inr (dict_get d k dflt)"
| "py_get v k dflt = Inl AttributeError"

text \<open>
  \<open>xs[0] if xs else {}\<close>: a false value gives the empty dictionary; a non-empty list its
  first element; a non-empty string its first character; a non-empty dictionary has no key
  \<open>0\<close> (its keys are strings); numbers and \<open>True\<close> are not subscriptable.
\<close>

fun first_or_empty :: "pyval \<Rightarrow> exn + pyval" where
  "first_or_empty (PList (x # xs)) = Inr x"
| "first_or_empty (PStr (c # cs)) = Inr (PStr [c])"
| "first_or_empty (PDict (kv # kvs)) = Inl KeyError"
| "first_or_empty v = (if truthy v then Inl TypeError else Inr (PDict []))"

text \<open>Decimal text of an integer, as \<open>str\<close> prints it.\<close>

fun digit_chars :: "nat \<Rightarrow> string" where
  "digit_chars n =
     (if n < 10 then [''0123456789'' ! n]
      else digit_chars (n div 10) @ [''0123456789'' ! (n mod 10)])"

declare digit_chars.simps [simp del]

definition str_int :: "int \<Rightarrow> string" where
  "str_int i = (if i < 0 then CHR ''-'' # digit_chars (nat (- i)) else digit_chars (nat i))"

section \<open>The database\<close>

text \<open>
  A record of the run log \<open>raw.ingestion_log\<close>, with the columns the ingestors write.
  A column an \<open>INSERT\<close> does not name is null.
\<close>

record run_record =
  run_id :: string
  log_source :: string
  records_fetched :: "int option"
  records_loaded :: "int option"
  log_status :: string
  error_message :: "string option"
  finished_at :: "nat option"

subsection \<open>Canonical staging rows\<close>

text \<open>The row dictionary both ingestors build, one field per column of \<open>raw.events\<close>.\<close>

record row =
  source :: string
  raw_event_id :: pyval
  raw_payload :: pyval
  event_name :: pyval
  event_date :: pyval
  event_time :: pyval
  venue_name :: pyval
  venue_city :: pyval
  venue_country :: pyval
  venue_lat :: pyval
  venue_lon :: pyval
  category :: pyval
  subcategory :: pyval
  price_min :: pyval
  price_max :: pyval
  currency :: pyval
  url :: pyval
  status :: pyval

text \<open>
  The database: the staging table, the run log, and everything else (the warehouse,
  transform and reporting schemas, which only the SQL scripts touch).
\<close>

record 'r db =
  raw_events :: "row list"
  ingestion_log :: "run_record list"
  other :: 'r

section \<open>What the environment supplies\<close>

text \<open>
  The ingestors and the orchestrator call into libraries and services that are not part of
  the repository. Their behaviour is a parameter of the model, collected in one record:
  \<^item> \<open>json_dumps\<close>: \<open>json.dumps\<close>;
  \<^item> \<open>str_container\<close>: \<open>str\<close> of a list or a dictionary;
  \<^item> \<open>exc_str\<close>: \<open>str(e)\<close> of an exception;
  \<^item> \<open>float_last_page\<close>: \<open>page >= f - 1\<close> for a float \<open>f\<close> (given by its text);
  \<^item> \<open>server\<close>: the outcome of the \<open>n\<close>-th HTTP GET issued, for its query parameters:
    the decoded JSON body, or the exception raised by \<open>requests.get\<close>,
    \<open>raise_for_status\<close> or \<open>response.json\<close>;
  \<^item> \<open>read_csv\<close>: \<open>pandas.read_csv\<close>: the rows of the frame, each a dictionary from column
    name to cell (a missing cell is the float \<open>nan\<close>), or the exception raised;
  \<^item> \<open>keeps_nan\<close>: whether \<open>df.where(pd.notnull(df), None)\<close> leaves \<open>nan\<close> in the null
    cells of a column of the frame instead of putting \<open>None\<close> there. The library decides
    this by its version and by the type of the column: older versions put \<open>None\<close>
    everywhere, later ones leave \<open>nan\<close> in the columns of floats, the latest in every
    column;
  \<^item> \<open>refuses\<close>: how the bulk insert of a batch of rows of the API ingestor fails, if it
    does (see \<open>refusal\<close> below);
  \<^item> \<open>read_text\<close>: reading a SQL file;
  \<^item> \<open>execute\<close>: executing SQL text that is not an insert into the two tables modelled
    below, on the connection's view of the database;
  \<^item> \<open>query_count\<close>: executing a summary query and taking \<open>fetchone()[0]\<close>;
  \<^item> \<open>uuid4\<close>: the identifier \<open>str(uuid.uuid4())\<close> drawn by an ingestion run;
  \<^item> \<open>getenv\<close>: \<open>os.getenv\<close>; \<open>parse_int\<close>: \<open>int\<close> of a text.
\<close>

text \<open>
  The query parameters of a page request. Page indices are the non-negative integers
  \<open>range\<close> produces.
\<close>

record params =
  apikey :: string
  countryCode :: string
  size :: int
  page :: nat
  sort :: string

text \<open>
  The two ways \<open>execute_batch\<close> can fail on a batch. The server raises an error for a
  statement (a value a column cannot hold, a violated constraint): the transaction of the
  connection is then aborted and nothing of the batch stays. Or the driver raises an error
  for a row it cannot turn into SQL (a value of a type it cannot adapt), after the
  statements of the first \<open>n\<close> rows have been sent (it sends them in groups): those stay in
  the open transaction, which is in order.
\<close>

datatype refusal = ByServer exn | ByDriver exn nat

fun refusal_exn :: "refusal \<Rightarrow> exn" where
  "refusal_exn (ByServer e) = e"
| "refusal_exn (ByDriver e n) = e"

record 'r ext =
  json_dumps :: "pyval \<Rightarrow> string"
  str_container :: "pyval \<Rightarrow> string"
  exc_str :: "exn \<Rightarrow> string"
  float_last_page :: "nat \<Rightarrow> string \<Rightarrow> bool"
  server :: "nat \<Rightarrow> params \<Rightarrow> exn + pyval"
  read_csv :: "string \<Rightarrow> exn + (string \<times> pyval) list list"
  keeps_nan :: "(string \<times> pyval) list list \<Rightarrow> string \<Rightarrow> bool"
  refuses :: "row list \<Rightarrow> refusal option"
  read_text :: "string \<Rightarrow> exn + string"
  execute :: "string \<Rightarrow> 'r db \<Rightarrow> exn + 'r db"
  query_count :: "string \<Rightarrow> 'r db \<Rightarrow> exn + int"
  uuid4 :: string
  getenv :: "string \<Rightarrow> string option"
  parse_int :: "string \<Rightarrow> exn + int"

text \<open>\<open>str(v)\<close>.\<close>

fun py_str :: "'r ext \<Rightarrow> pyval \<Rightarrow> string" where
  "py_str X PNone = ''None''"
| "py_str X (PBool b) = (if b then ''True'' else ''False'')"
| "py_str X (PInt i) = str_int i"
| "py_str X (PFloat s) = s"
| "py_str X (PStr s) = s"
| "py_str X (PList xs) = str_container X (PList xs)"
| "py_str X (PDict d) = str_container X (PDict d)"

section \<open>The world an invocation runs in\<close>

text \<open>
  Everything is single-threaded and uses one connection at a time, so the effects are
  threaded through one state: the database as committed, the open connection's view of it
  (the committed state plus the statements of the open transaction), the HTTP exchanges so
  far (request and outcome, oldest first), the waits slept, the SQL texts handed to the
  cursor for the statements the model does not interpret (schema creation, the scripts,
  the summary queries), the clock that \<open>NOW()\<close> reads, and the lines written to the log.
  The pictographs that open some log messages are left out and the dash of the banner is
  a hyphen: the texts here are ASCII.

  The storage engine is not part of the repository. Connecting to the database is taken
  to succeed, and so are the statements of a connection that has just been opened (the
  bulk insert and the log record of the CSV ingestor, the first log record of the API
  ingestor). Within the \<open>try\<close> block of the API run the database may refuse a batch
  (\<open>refuses\<close>); the flag \<open>aborted\<close> records that the transaction of the open connection
  has failed, after which every statement on the connection raises until the transaction
  ends.
\<close>

datatype level = Info | Success | Warning | Error

record 'r world =
  committed :: "'r db"
  working :: "'r db"
  http_log :: "(params \<times> (exn + pyval)) list"
  sleeps :: "nat list"
  sql_log :: "string list"
  clock :: nat
  out :: "(level \<times> string) list"
  aborted :: bool

definition get_db_connection :: "'r world \<Rightarrow> 'r world" where
  "get_db_connection w = w\<lparr>working := committed w, aborted := False\<rparr>"

text \<open>
  \<open>conn.commit()\<close> ends the transaction: its statements become the committed state, unless
  the transaction has failed, in which case the database rolls it back.
\<close>

definition commit :: "'r world \<Rightarrow> 'r world" where
  "commit w =
     (if aborted w then w\<lparr>working := committed w, aborted := False\<rparr>
      else w\<lparr>committed := working w\<rparr>)"

text \<open>Closing a connection discards the statements of its open transaction.\<close>

definition close :: "'r world \<Rightarrow> 'r world" where
  "close w = w\<lparr>working := committed w, aborted := False\<rparr>"

text \<open>What a statement raises on a connection whose transaction has failed.\<close>

definition in_failed_transaction :: exn where
  "in_failed_transaction =
     Raised ''InFailedSqlTransaction''
       ''current transaction is aborted, commands ignored until end of transaction block''"

definition logger :: "level \<Rightarrow> string \<Rightarrow> 'r world \<Rightarrow> 'r world" where
  "logger lv s w = w\<lparr>out := out w @ [(lv, s)]\<rparr>"

definition sleep :: "nat \<Rightarrow> 'r world \<Rightarrow> 'r world" where
  "sleep n w = w\<lparr>sleeps := sleeps w @ [n], clock := clock w + n\<rparr>"

subsection \<open>The bulk insert\<close>

text \<open>
  Modelled from the spec: the declaration of the table \<open>raw.events\<close> (its DDL is not
  among the sources). The spec describes the staging table as keyed by (source,
  source-native event id) with insert-or-skip-on-conflict semantics: the
  \<open>INSERT ... ON CONFLICT DO NOTHING\<close> of both ingestors adds a row unless a row with the
  same pair is already there, and raises nothing either way.
\<close>

definition row_key :: "row \<Rightarrow> string \<times> pyval" where
  "row_key r = (source r, raw_event_id r)"

definition insert_on_conflict_do_nothing :: "row list \<Rightarrow> row \<Rightarrow> row list" where
  "insert_on_conflict_do_nothing tbl r =
     (if row_key r \<in> set (map row_key tbl) then tbl else tbl @ [r])"

text \<open>\<open>psycopg2.extras.execute_batch\<close>: the statement once per row, in order.\<close>

definition execute_batch :: "row list \<Rightarrow> 'r world \<Rightarrow> 'r world" where
  "execute_batch rows w =
     w\<lparr>working := (working w)\<lparr>raw_events :=
        foldl insert_on_conflict_do_nothing (raw_events (working w)) rows\<rparr>\<rparr>"

section \<open>The CSV ingestor\<close>

text \<open>
  \<open>df.where(pd.notnull(df), None)\<close>, which the source's comment describes as "Convert
  NaN to None for psycopg2": a cell that is not null is kept; a null cell becomes \<open>None\<close>,
  unless the library leaves \<open>nan\<close> in the cells of its column (\<open>keeps_nan\<close>).
\<close>

definition notnull :: "pyval \<Rightarrow> bool" where
  "notnull v = (v \<noteq> PNone \<and> v \<noteq> PFloat ''nan'')"

definition where_row ::
  "'r ext \<Rightarrow> (string \<times> pyval) list list \<Rightarrow> (string \<times> pyval) list \<Rightarrow> (string \<times> pyval) list" where
  "where_row X df r =
     map (\<lambda>(k, v). (k, if notnull v then v
                        else if keeps_nan X df k then PFloat ''nan'' else PNone)) r"

definition where_notnull ::
  "'r ext \<Rightarrow> (string \<times> pyval) list list \<Rightarrow> (string \<times> pyval) list list" where
  "where_notnull X df = map (where_row X df) df"

text \<open>The dictionary built for one row of the frame, in the body of the loop of \<open>run\<close>.\<close>

definition csv_row :: "'r ext \<Rightarrow> (string \<times> pyval) list \<Rightarrow> row" where
  "csv_row X r =
     \<lparr>source = ''csv'',
      raw_event_id = PStr (py_str X (dict_get r ''event_id'' (PStr ''''))),
      raw_payload = PNone,
      event_name = dict_get r ''event_name'' PNone,
      event_date = PStr (py_str X (dict_get r ''event_date'' (PStr ''''))),
      event_time = PStr (py_str X (dict_get r ''event_time'' (PStr ''''))),
      venue_name = dict_get r ''venue_name'' PNone,
      venue_city = dict_get r ''venue_city'' PNone,
      venue_country = dict_get r ''venue_country'' PNone,
      venue_lat = dict_get r ''venue_lat'' PNone,
      venue_lon = dict_get r ''venue_lon'' PNone,
      category = dict_get r ''category'' PNone,
      subcategory = dict_get r ''subcategory'' PNone,
      price_min = PStr (py_str X (dict_get r ''price_min'' (PStr ''''))),
      price_max = PStr (py_str X (dict_get r ''price_max'' (PStr ''''))),
      currency = dict_get r ''currency'' PNone,
      url = dict_get r ''url'' PNone,
      status = dict_get r ''status'' PNone\<rparr>"

text \<open>
  \<open>CsvIngestor.run\<close>. The file is read before anything else; an exception of the reader
  leaves the function at once (there is no handler). Otherwise the rows are built, a
  connection is opened, the batch is inserted, one record is added to the run log, and
  all of it is committed together.
\<close>

definition csv_log_record :: "string \<Rightarrow> nat \<Rightarrow> nat \<Rightarrow> run_record" where
  "csv_log_record rid n t =
     \<lparr>run_id = rid, log_source = ''csv'', records_fetched = Some (int n),
      records_loaded = Some (int n), log_status = ''success'', error_message = None,
      finished_at = Some t\<rparr>"

definition insert_log :: "run_record \<Rightarrow> 'r world \<Rightarrow> 'r world" where
  "insert_log r w =
     w\<lparr>working := (working w)\<lparr>ingestion_log := ingestion_log (working w) @ [r]\<rparr>\<rparr>"

definition CsvIngestor_run :: "'r ext \<Rightarrow> string \<Rightarrow> 'r world \<Rightarrow> (exn + int) \<times> 'r world" where
  "CsvIngestor_run X csv_path w =
     (let rid = uuid4 X;
          w0 = logger Info (''Loading CSV: '' @ csv_path) w
      in case read_csv X csv_path of
           Inl e \<Rightarrow> (Inl e, w0)
         | Inr df0 \<Rightarrow>
             (let df = where_notnull X df0;
                  rows = map (csv_row X) df;
                  w1 = get_db_connection w0;
                  w2 = execute_batch rows w1;
                  w3 = insert_log (csv_log_record rid (length rows) (clock w2)) w2;
                  w4 = close (commit w3);
                  w5 = logger Success (''CSV ingestion complete: '' @ str_int (int (length rows))
                         @ '' records loaded'') w4
              in (Inr (int (length rows)), w5)))"

text \<open>A frame row has the column and its cell is null.\<close>

definition null_cell :: "(string \<times> pyval) list \<Rightarrow> string \<Rightarrow> bool" where
  "null_cell r k = (case map_of r k of None \<Rightarrow> False | Some v \<Rightarrow> \<not> notnull v)"

section \<open>The API ingestor\<close>

record ingestor =
  api_key :: string
  batch_size :: int

text \<open>
  \<open>TicketmasterIngestor.__init__\<close>: the key and the batch size come from the process
  environment; a missing or empty key raises \<open>ValueError\<close>.
\<close>

definition ingestor_init :: "'r ext \<Rightarrow> exn + ingestor" where
  "ingestor_init X =
     (let key = getenv X ''TICKETMASTER_API_KEY'' in
      bnd (case getenv X ''BATCH_SIZE'' of None \<Rightarrow> Inr 100 | Some s \<Rightarrow> parse_int X s) (\<lambda>bs.
        case key of
          None \<Rightarrow> Inl (ValueError ''TICKETMASTER_API_KEY not set in .env'')
        | Some k \<Rightarrow>
            if k = [] then Inl (ValueError ''TICKETMASTER_API_KEY not set in .env'')
            else Inr \<lparr>api_key = k, batch_size = bs\<rparr>))"

subsection \<open>Fetching a page, with retries\<close>

text \<open>One HTTP GET: the request and its outcome are recorded.\<close>

definition http_get :: "'r ext \<Rightarrow> params \<Rightarrow> 'r world \<Rightarrow> (exn + pyval) \<times> 'r world" where
  "http_get X q w =
     (let r = server X (length (http_log w)) q
      in (r, w\<lparr>http_log := http_log w @ [(q, r)]\<rparr>))"

text \<open>The body of \<open>fetch_events\<close>: one attempt, with the query parameters it builds.\<close>

definition page_params :: "ingestor \<Rightarrow> string \<Rightarrow> nat \<Rightarrow> params" where
  "page_params self country_code pg =
     \<lparr>apikey = api_key self, countryCode = country_code, size = batch_size self,
      page = pg, sort = ''date,asc''\<rparr>"

definition fetch_events_body ::
  "'r ext \<Rightarrow> ingestor \<Rightarrow> string \<Rightarrow> nat \<Rightarrow> 'r world \<Rightarrow> (exn + pyval) \<times> 'r world" where
  "fetch_events_body X self country_code pg w = http_get X (page_params self country_code pg) w"

text \<open>
  The decorator \<open>@retry(stop=stop_after_attempt(3), wait=wait_exponential(min=2, max=10))\<close>
  of the \<open>tenacity\<close> library. \<open>wait_exponential\<close> (multiplier 1, base 2) waits
  \<open>2 ^ (attempt - 1)\<close> after the attempt of that number, clamped between \<open>min\<close> and
  \<open>max\<close>. The decorated function is called again after every exception, whatever its
  class, until an attempt returns or the attempt number reaches the stop; then
  \<open>RetryError\<close> is raised (the decorator is not given \<open>reraise=True\<close>).
\<close>

definition wait_exponential :: "nat \<Rightarrow> nat \<Rightarrow> nat \<Rightarrow> nat" where
  "wait_exponential mn mx attempt = max mn (min (2 ^ (attempt - 1)) mx)"

function retrying ::
  "nat \<Rightarrow> (nat \<Rightarrow> nat) \<Rightarrow> ('r world \<Rightarrow> (exn + 'a) \<times> 'r world) \<Rightarrow> nat \<Rightarrow> 'r world
     \<Rightarrow> (exn + 'a) \<times> 'r world" where
  "retrying stop wait f attempt w =
     (case f w of
        (Inr v, w1) \<Rightarrow> (Inr v, w1)
      | (Inl e, w1) \<Rightarrow>
          if stop \<le> attempt then (Inl (RetryError e), w1)
          else retrying stop wait f (attempt + 1) (sleep (wait attempt) w1))"
  by pat_completeness auto
termination
  by (relation "measure (\<lambda>(stop, wait, f, attempt, w). stop - attempt)") auto

declare retrying.simps [simp del]

definition fetch_events ::
  "'r ext \<Rightarrow> ingestor \<Rightarrow> string \<Rightarrow> nat \<Rightarrow> 'r world \<Rightarrow> (exn + pyval) \<times> 'r world" where
  "fetch_events X self country_code pg =
     retrying 3 (wait_exponential 2 10) (fetch_events_body X self country_code pg) 1"

subsection \<open>Flattening an event\<close>

text \<open>
  \<open>parse_event\<close>. Every \<open>.get\<close> is a method call that raises on a value that is not a
  dictionary; the statements and the entries of the returned dictionary are evaluated in
  the order of the source, so the first failing one decides the exception.
\<close>

definition parse_event :: "'r ext \<Rightarrow> pyval \<Rightarrow> exn + row" where
  "parse_event X event =
     bnd (py_get event ''_embedded'' (PDict [])) (\<lambda>embedded.
     bnd (py_get embedded ''venues'' (PList [PDict []])) (\<lambda>venues.
     bnd (first_or_empty venues) (\<lambda>venue.
     bnd (py_get event ''classifications'' (PList [PDict []])) (\<lambda>classifications.
     bnd (first_or_empty classifications) (\<lambda>classification.
     bnd (py_get event ''priceRanges'' (PList [PDict []])) (\<lambda>price_ranges.
     bnd (first_or_empty price_ranges) (\<lambda>price.
     bnd (bnd (py_get event ''dates'' (PDict [])) (\<lambda>d. py_get d ''start'' (PDict []))) (\<lambda>dates.
     bnd (py_get venue ''location'' (PDict [])) (\<lambda>location.
     bnd (py_get event ''id'' PNone) (\<lambda>v_id.
     bnd (py_get event ''name'' PNone) (\<lambda>v_name.
     bnd (py_get dates ''localDate'' PNone) (\<lambda>v_date.
     bnd (py_get dates ''localTime'' PNone) (\<lambda>v_time.
     bnd (py_get venue ''name'' PNone) (\<lambda>v_venue.
     bnd (bnd (py_get venue ''city'' (PDict [])) (\<lambda>d. py_get d ''name'' PNone)) (\<lambda>v_city.
     bnd (bnd (py_get venue ''country'' (PDict [])) (\<lambda>d. py_get d ''name'' PNone)) (\<lambda>v_country.
     bnd (py_get location ''latitude'' PNone) (\<lambda>v_lat.
     bnd (py_get location ''longitude'' PNone) (\<lambda>v_lon.
     bnd (bnd (py_get classification ''segment'' (PDict [])) (\<lambda>d. py_get d ''name'' PNone))
       (\<lambda>v_category.
     bnd (bnd (py_get classification ''genre'' (PDict [])) (\<lambda>d. py_get d ''name'' PNone))
       (\<lambda>v_subcategory.
     bnd (py_get price ''min'' (PStr '''')) (\<lambda>v_min.
     bnd (py_get price ''max'' (PStr '''')) (\<lambda>v_max.
     bnd (py_get price ''currency'' PNone) (\<lambda>v_currency.
     bnd (py_get event ''url'' PNone) (\<lambda>v_url.
     bnd (bnd (bnd (py_get event ''dates'' (PDict [])) (\<lambda>d. py_get d ''status'' (PDict [])))
            (\<lambda>d. py_get d ''code'' PNone)) (\<lambda>v_status.
     Inr \<lparr>source = ''ticketmaster'',
          raw_event_id = v_id,
          raw_payload = PStr (json_dumps X event),
          event_name = v_name,
          event_date = v_date,
          event_time = v_time,
          venue_name = v_venue,
          venue_city = v_city,
          venue_country = v_country,
          venue_lat = v_lat,
          venue_lon = v_lon,
          category = v_category,
          subcategory = v_subcategory,
          price_min = PStr (py_str X v_min),
          price_max = PStr (py_str X v_max),
          currency = v_currency,
          url = v_url,
          status = v_status\<rparr>)))))))))))))))))))))))))"

subsection \<open>Loading a page\<close>

text \<open>
  \<open>load_to_raw\<close>: the batch is inserted and committed; an empty batch touches nothing.
  The insert raises when the transaction of the connection has failed already, or when
  the database refuses the batch; then nothing is committed.
\<close>

definition load_to_raw ::
  "'r ext \<Rightarrow> row list \<Rightarrow> string \<Rightarrow> 'r world \<Rightarrow> (exn + nat) \<times> 'r world" where
  "load_to_raw X rows rid w =
     (if rows = [] then (Inr 0, w)
      else if aborted w then (Inl in_failed_transaction, w)
      else (case refuses X rows of
              Some (ByServer e) \<Rightarrow> (Inl e, w\<lparr>aborted := True\<rparr>)
            | Some (ByDriver e n) \<Rightarrow> (Inl e, execute_batch (take n rows) w)
            | None \<Rightarrow> (Inr (length rows), commit (execute_batch rows w))))"

subsection \<open>The run\<close>

text \<open>Iterating a value in a comprehension: a dictionary yields its keys, a string its characters.\<close>

fun py_iter :: "pyval \<Rightarrow> exn + pyval list" where
  "py_iter (PList xs) = Inr xs"
| "py_iter (PStr s) = Inr (map (\<lambda>c. PStr [c]) s)"
| "py_iter (PDict d) = Inr (map (\<lambda>kv. PStr (fst kv)) d)"
| "py_iter v = Inl TypeError"

fun map_e :: "('a \<Rightarrow> exn + 'b) \<Rightarrow> 'a list \<Rightarrow> exn + 'b list" where
  "map_e f [] = Inr []"
| "map_e f (x # xs) = bnd (f x) (\<lambda>y. bnd (map_e f xs) (\<lambda>ys. Inr (y # ys)))"

text \<open>\<open>data.get("_embedded", {}).get("events", [])\<close>.\<close>

definition events_of :: "pyval \<Rightarrow> exn + pyval" where
  "events_of data = bnd (py_get data ''_embedded'' (PDict [])) (\<lambda>d. py_get d ''events'' (PList []))"

text \<open>\<open>[self.parse_event(e) for e in events]\<close>.\<close>

definition parse_events :: "'r ext \<Rightarrow> pyval \<Rightarrow> exn + row list" where
  "parse_events X events = bnd (py_iter events) (map_e (parse_event X))"

text \<open>
  \<open>pg >= t - 1\<close> for the value \<open>t\<close> found under \<open>totalPages\<close>: integer arithmetic on an
  integer or a boolean, the environment's answer on a float, \<open>TypeError\<close> on anything else.
\<close>

fun ge_minus_one :: "'r ext \<Rightarrow> nat \<Rightarrow> pyval \<Rightarrow> exn + bool" where
  "ge_minus_one X pg (PInt t) = Inr (t - 1 \<le> int pg)"
| "ge_minus_one X pg (PBool b) = Inr ((if b then 1 else 0) - 1 \<le> int pg)"
| "ge_minus_one X pg (PFloat s) = Inr (float_last_page X pg s)"
| "ge_minus_one X pg v = Inl TypeError"

text \<open>\<open>page >= data.get("page", {}).get("totalPages", 1) - 1\<close>.\<close>

definition last_page :: "'r ext \<Rightarrow> pyval \<Rightarrow> nat \<Rightarrow> exn + bool" where
  "last_page X data pg =
     bnd (py_get data ''page'' (PDict [])) (\<lambda>page_info.
     bnd (py_get page_info ''totalPages'' (PInt 1)) (\<lambda>t. ge_minus_one X pg t))"

text \<open>
  The body of the loop \<open>for page in range(max_pages)\<close> of \<open>run\<close>, for page \<open>pg\<close> with
  \<open>total_loaded\<close> records loaded so far. It ends in an exception, in a \<open>break\<close> or by
  falling through to the next turn; the value is the new \<open>total_loaded\<close>.
\<close>

datatype 'a turn = Break 'a | Continue 'a

definition run_page ::
  "'r ext \<Rightarrow> ingestor \<Rightarrow> string \<Rightarrow> string \<Rightarrow> nat \<Rightarrow> int \<Rightarrow> 'r world
     \<Rightarrow> (exn + int turn) \<times> 'r world" where
  "run_page X self country_code rid pg total_loaded w =
     (case fetch_events X self country_code pg
             (logger Info (''Fetching page '' @ str_int (int pg) @ '' | country=''
                @ country_code) w) of
        (Inl e, w2) \<Rightarrow> (Inl e, w2)
      | (Inr data, w2) \<Rightarrow>
          (case events_of data of
             Inl e \<Rightarrow> (Inl e, w2)
           | Inr events \<Rightarrow>
               if \<not> truthy events
               then (Inr (Break total_loaded),
                     logger Info ''No more events found, stopping early.'' w2)
               else
                 (case parse_events X events of
                    Inl e \<Rightarrow> (Inl e, w2)
                  | Inr rows \<Rightarrow>
                      (case load_to_raw X rows rid w2 of
                         (Inl e, w3) \<Rightarrow> (Inl e, w3)
                       | (Inr loaded, w3) \<Rightarrow>
                           (let w4 = logger Success (''Page '' @ str_int (int pg)
                                       @ '': loaded '' @ str_int (int loaded) @ '' records'') w3
                            in case last_page X data pg of
                                 Inl e \<Rightarrow> (Inl e, w4)
                               | Inr stop \<Rightarrow>
                                   if stop then (Inr (Break (total_loaded + int loaded)), w4)
                                   else (Inr (Continue (total_loaded + int loaded)), w4))))))"

text \<open>The loop, from page \<open>pg\<close> on. An exception leaves it with the world as it is then.\<close>

function run_pages ::
  "'r ext \<Rightarrow> ingestor \<Rightarrow> string \<Rightarrow> string \<Rightarrow> int \<Rightarrow> nat \<Rightarrow> int \<Rightarrow> 'r world
     \<Rightarrow> (exn + int) \<times> 'r world" where
  "run_pages X self country_code rid max_pages pg total_loaded w =
     (if max_pages \<le> int pg then (Inr total_loaded, w)
      else
        (case run_page X self country_code rid pg total_loaded w of
           (Inl e, w1) \<Rightarrow> (Inl e, w1)
         | (Inr (Break t), w1) \<Rightarrow> (Inr t, w1)
         | (Inr (Continue t), w1) \<Rightarrow>
             run_pages X self country_code rid max_pages (pg + 1) t w1))"
  by pat_completeness auto
termination
  by (relation "measure (\<lambda>(X, self, country_code, rid, max_pages, pg, total_loaded, w).
        nat max_pages - pg)") auto

declare run_pages.simps [simp del]

text \<open>
  \<open>UPDATE raw.ingestion_log SET ... WHERE run_id = ...\<close>. The statement raises on a
  connection whose transaction has failed.
\<close>

definition update_log ::
  "string \<Rightarrow> (run_record \<Rightarrow> run_record) \<Rightarrow> 'r world \<Rightarrow> (exn + unit) \<times> 'r world" where
  "update_log rid f w =
     (if aborted w then (Inl in_failed_transaction, w)
      else (Inr (),
            w\<lparr>working := (working w)\<lparr>ingestion_log :=
               map (\<lambda>r. if run_id r = rid then f r else r) (ingestion_log (working w))\<rparr>\<rparr>))"

definition running_record :: "string \<Rightarrow> run_record" where
  "running_record rid =
     \<lparr>run_id = rid, log_source = ''ticketmaster'', records_fetched = None,
      records_loaded = None, log_status = ''running'', error_message = None,
      finished_at = None\<rparr>"

text \<open>
  The \<open>try\<close> block of \<open>TicketmasterIngestor.run\<close>: the loop, and after it the update of
  the run record to success with the total, the commit and the closing log line.
\<close>

definition run_try ::
  "'r ext \<Rightarrow> ingestor \<Rightarrow> string \<Rightarrow> string \<Rightarrow> int \<Rightarrow> 'r world \<Rightarrow> (exn + int) \<times> 'r world" where
  "run_try X self country_code rid max_pages w =
     (case run_pages X self country_code rid max_pages 0 0 w of
        (Inl e, w2) \<Rightarrow> (Inl e, w2)
      | (Inr total_loaded, w2) \<Rightarrow>
          (case update_log rid
                  (\<lambda>r. r\<lparr>finished_at := Some (clock w2), records_loaded := Some total_loaded,
                         log_status := ''success''\<rparr>) w2 of
             (Inl e, w3) \<Rightarrow> (Inl e, w3)
           | (Inr u, w3) \<Rightarrow>
               (Inr total_loaded,
                logger Success (''Ingestion complete. Total records: '' @ str_int total_loaded)
                  (commit w3))))"

text \<open>
  \<open>TicketmasterIngestor.run\<close>: the run record is inserted and committed as running and
  the \<open>try\<close> block runs. The handler of any exception logs it, updates the record to
  failed with the text of the exception, commits and raises the exception again; an
  exception of the handler's own update takes its place. The connection is closed either
  way.
\<close>

definition TicketmasterIngestor_run ::
  "'r ext \<Rightarrow> ingestor \<Rightarrow> string \<Rightarrow> int \<Rightarrow> 'r world \<Rightarrow> (exn + int) \<times> 'r world" where
  "TicketmasterIngestor_run X self country_code max_pages w =
     (let rid = uuid4 X;
          w1 = commit (insert_log (running_record rid) (get_db_connection w))
      in case run_try X self country_code rid max_pages w1 of
           (Inr total_loaded, w2) \<Rightarrow> (Inr total_loaded, close w2)
         | (Inl e, w2) \<Rightarrow>
             (let w3 = logger Error (''Ingestion failed: '' @ exc_str X e) w2
              in case update_log rid
                        (\<lambda>r. r\<lparr>finished_at := Some (clock w3), log_status := ''failed'',
                               error_message := Some (exc_str X e)\<rparr>) w3 of
                   (Inl e2, w4) \<Rightarrow> (Inl e2, close w4)
                 | (Inr u, w4) \<Rightarrow> (Inl e, close (commit w4))))"

section \<open>The orchestrator\<close>

text \<open>
  Procedures that thread the world and may raise are composed with \<open>bind_io\<close>: the
  second runs only if the first returned, on the world the first left.
\<close>

definition bind_io ::
  "('w \<Rightarrow> (exn + 'a) \<times> 'w) \<Rightarrow> ('a \<Rightarrow> 'w \<Rightarrow> (exn + 'b) \<times> 'w) \<Rightarrow> 'w \<Rightarrow> (exn + 'b) \<times> 'w" where
  "bind_io m f w = (case m w of (Inl e, w1) \<Rightarrow> (Inl e, w1) | (Inr v, w1) \<Rightarrow> f v w1)"

definition lift_io :: "('w \<Rightarrow> 'w) \<Rightarrow> 'w \<Rightarrow> (exn + unit) \<times> 'w" where
  "lift_io g w = (Inr (), g w)"

text \<open>
  \<open>cur.execute(sql)\<close> for a statement the model does not interpret: the text is recorded,
  and the environment gives the connection's new view of the database or the exception.
\<close>

definition cur_execute :: "'r ext \<Rightarrow> string \<Rightarrow> 'r world \<Rightarrow> (exn + unit) \<times> 'r world" where
  "cur_execute X sql w =
     (case execute X sql (working w) of
        Inl e \<Rightarrow> (Inl e, w\<lparr>sql_log := sql_log w @ [sql]\<rparr>)
      | Inr d \<Rightarrow> (Inr (), w\<lparr>sql_log := sql_log w @ [sql], working := d\<rparr>))"

definition run_sql_file :: "'r ext \<Rightarrow> string \<Rightarrow> 'r world \<Rightarrow> (exn + unit) \<times> 'r world" where
  "run_sql_file X sql_path w =
     (case read_text X sql_path of
        Inl e \<Rightarrow> (Inl e, w)
      | Inr sql \<Rightarrow>
          bind_io (cur_execute X sql)
            (\<lambda>_. lift_io (\<lambda>w1. logger Info (''Executed: '' @ sql_path) (commit w1))) w)"

definition create_transform_schema :: "'r ext \<Rightarrow> 'r world \<Rightarrow> (exn + unit) \<times> 'r world" where
  "create_transform_schema X =
     bind_io (cur_execute X ''CREATE SCHEMA IF NOT EXISTS transform;'') (\<lambda>_.
     bind_io (cur_execute X ''CREATE SCHEMA IF NOT EXISTS reporting;'') (\<lambda>_.
     lift_io commit))"

subsection \<open>The summary\<close>

definition queries :: "(string \<times> string) list" where
  "queries =
     [(''Total raw events'', ''SELECT COUNT(*) FROM raw.events''),
      (''Unprocessed raw events'', ''SELECT COUNT(*) FROM raw.events WHERE is_processed = FALSE''),
      (''Fact events loaded'', ''SELECT COUNT(*) FROM warehouse.fact_events''),
      (''Unique venues'', ''SELECT COUNT(*) FROM warehouse.dim_venue''),
      (''Unique categories'', ''SELECT COUNT(*) FROM warehouse.dim_category''),
      (''Quality checks run'', ''SELECT COUNT(*) FROM raw.quality_log''),
      (''Failed quality checks'',
       ''SELECT COUNT(*) FROM raw.quality_log WHERE status = 'failed'' @ [CHR 0x27])]"

text \<open>The format specifications \<open><30\<close> and \<open>>10,\<close> of the summary lines.\<close>

definition ljust :: "nat \<Rightarrow> string \<Rightarrow> string" where
  "ljust n s = s @ replicate (n - length s) CHR '' ''"

definition rjust :: "nat \<Rightarrow> string \<Rightarrow> string" where
  "rjust n s = replicate (n - length s) CHR '' '' @ s"

function group_thousands :: "string \<Rightarrow> string" where
  "group_thousands ds =
     (if length ds \<le> 3 then ds
      else group_thousands (take (length ds - 3) ds) @ '','' @ drop (length ds - 3) ds)"
  by pat_completeness auto
termination
  by (relation "measure length") auto

declare group_thousands.simps [simp del]

definition fmt_thousands :: "int \<Rightarrow> string" where
  "fmt_thousands i =
     (if i < 0 then CHR ''-'' # group_thousands (digit_chars (nat (- i)))
      else group_thousands (digit_chars (nat i)))"

text \<open>
  One turn of the loop of \<open>print_pipeline_summary\<close>: the query is executed and its
  result logged; an exception is caught and logged as a warning.
\<close>

definition summary_query :: "'r ext \<Rightarrow> string \<times> string \<Rightarrow> 'r world \<Rightarrow> 'r world" where
  "summary_query X lq w =
     (case query_count X (snd lq) (working w) of
        Inr result \<Rightarrow>
          logger Info (''  '' @ ljust 30 (fst lq) @ '' '' @ rjust 10 (fmt_thousands result))
            (w\<lparr>sql_log := sql_log w @ [snd lq]\<rparr>)
      | Inl e \<Rightarrow>
          logger Warning (''  '' @ ljust 30 (fst lq) @ '' ERROR: '' @ exc_str X e)
            (w\<lparr>sql_log := sql_log w @ [snd lq]\<rparr>))"

definition print_pipeline_summary :: "'r ext \<Rightarrow> 'r world \<Rightarrow> (exn + unit) \<times> 'r world" where
  "print_pipeline_summary X w =
     (let w1 = logger Info (replicate 55 CHR ''='') w;
          w2 = logger Info ''  PIPELINE SUMMARY'' w1;
          w3 = logger Info (replicate 55 CHR ''='') w2;
          w4 = foldl (\<lambda>w q. summary_query X q w) w3 queries
      in (Inr (), logger Info (replicate 55 CHR ''='') w4))"

subsection \<open>The steps\<close>

definition step_extract_load ::
  "'r ext \<Rightarrow> string \<Rightarrow> string \<Rightarrow> 'r world \<Rightarrow> (exn + int) \<times> 'r world" where
  "step_extract_load X src csv_path w =
     (let w1 = logger Info (''STEP 1-2: Extract & Load | source='' @ src) w
      in if src = ''api'' then
           (case ingestor_init X of
              Inl e \<Rightarrow> (Inl e, w1)
            | Inr ingestor \<Rightarrow> TicketmasterIngestor_run X ingestor ''DE'' 5 w1)
         else if src = ''csv'' then CsvIngestor_run X csv_path w1
         else (Inl (ValueError (''Unknown source: '' @ src)), w1))"

definition step_transform :: "'r ext \<Rightarrow> 'r world \<Rightarrow> (exn + unit) \<times> 'r world" where
  "step_transform X =
     bind_io (lift_io (logger Info ''STEP 3: Transform & build dimensions'')) (\<lambda>_.
     bind_io (create_transform_schema X) (\<lambda>_.
     bind_io (run_sql_file X ''transform/transform_events.sql'') (\<lambda>_.
     lift_io (logger Success ''Transform complete''))))"

definition step_load_facts :: "'r ext \<Rightarrow> 'r world \<Rightarrow> (exn + unit) \<times> 'r world" where
  "step_load_facts X =
     bind_io (lift_io (logger Info ''STEP 4: Load fact table'')) (\<lambda>_.
     bind_io (run_sql_file X ''files/load_facts.sql'') (\<lambda>_.
     lift_io (logger Success ''Fact load complete'')))"

definition step_quality_checks :: "'r ext \<Rightarrow> 'r world \<Rightarrow> (exn + unit) \<times> 'r world" where
  "step_quality_checks X =
     bind_io (lift_io (logger Info ''STEP 5: Data quality checks'')) (\<lambda>_.
     bind_io (run_sql_file X ''files/data_quality.sql'') (\<lambda>_.
     lift_io (logger Success ''Quality checks complete'')))"

definition step_create_kpi_views :: "'r ext \<Rightarrow> 'r world \<Rightarrow> (exn + unit) \<times> 'r world" where
  "step_create_kpi_views X =
     bind_io (lift_io (logger Info ''STEP 6: Create KPI views'')) (\<lambda>_.
     bind_io (run_sql_file X ''kpi_queries.sql'') (\<lambda>_.
     lift_io (logger Success ''KPI views ready'')))"

subsection \<open>\<open>main\<close>\<close>

text \<open>
  The parsed command line. The option \<open>--generate-sample\<close>, which writes a file of random
  rows before the pipeline starts, is not modelled.
\<close>

record args =
  arg_source :: string
  arg_csv_path :: string
  skip_ingest :: bool

text \<open>The body of the \<open>try\<close> block of \<open>main\<close>.\<close>

definition main_try :: "'r ext \<Rightarrow> 'r world \<Rightarrow> (exn + unit) \<times> 'r world" where
  "main_try X =
     bind_io (step_transform X) (\<lambda>_.
     bind_io (step_load_facts X) (\<lambda>_.
     bind_io (step_quality_checks X) (\<lambda>_.
     bind_io (step_create_kpi_views X) (\<lambda>_.
     bind_io (print_pipeline_summary X) (\<lambda>_.
     lift_io (logger Success ''Pipeline completed successfully!''))))))"

text \<open>
  Steps 3 to 6 of \<open>main\<close>: the connection, the \<open>try\<close> block, the handler that logs and
  raises the exception again, and the \<open>finally\<close> clause that closes the connection.
\<close>

definition main_stages :: "'r ext \<Rightarrow> 'r world \<Rightarrow> (exn + unit) \<times> 'r world" where
  "main_stages X w =
     (case main_try X (get_db_connection w) of
        (Inr u, w1) \<Rightarrow> (Inr (), close w1)
      | (Inl e, w1) \<Rightarrow> (Inl e, close (logger Error (''Pipeline failed at: '' @ exc_str X e) w1)))"

definition main :: "'r ext \<Rightarrow> args \<Rightarrow> 'r world \<Rightarrow> (exn + unit) \<times> 'r world" where
  "main X a w =
     (let w1 = logger Info (''   Source: '' @ arg_source a)
                 (logger Info ''Event Intelligence Data Warehouse - Pipeline Starting'' w)
      in if \<not> skip_ingest a then
           (case step_extract_load X (arg_source a) (arg_csv_path a) w1 of
              (Inl e, w2) \<Rightarrow> (Inl e, w2)
            | (Inr records, w2) \<Rightarrow>
                main_stages X (logger Info (''   Records ingested: '' @ str_int records) w2))
         else main_stages X w1)"


text \<open>The line the summary logs for a query, on a given view of the database.\<close>

definition summary_line :: "'r ext \<Rightarrow> 'r db \<Rightarrow> string \<times> string \<Rightarrow> level \<times> string" where
  "summary_line X d lq =
     (case query_count X (snd lq) d of
        Inr result \<Rightarrow>
          (Info, ''  '' @ ljust 30 (fst lq) @ '' '' @ rjust 10 (fmt_thousands result))
      | Inl e \<Rightarrow> (Warning, ''  '' @ ljust 30 (fst lq) @ '' ERROR: '' @ exc_str X e))"

section \<open>Notions used to state the properties\<close>

text \<open>
  The rows the loop of the API run loads from a response body: none when the body has no
  events, when its events do not parse, or when the database refuses them.
\<close>

definition loaded_rows :: "'r ext \<Rightarrow> pyval \<Rightarrow> row list" where
  "loaded_rows X data =
     (case events_of data of
        Inl e \<Rightarrow> []
      | Inr events \<Rightarrow>
          if truthy events
          then (case parse_events X events of
                  Inl e \<Rightarrow> []
                | Inr rows \<Rightarrow> (case refuses X rows of None \<Rightarrow> rows | Some rf \<Rightarrow> []))
          else [])"

text \<open>
  The exception the loop raises while it handles the response body of page \<open>pg\<close> on a
  connection in order, if it raises one, and whether it is an error of the database
  server, which aborts the transaction. The exception comes from reading the events, from
  flattening them, from the insert, or from the comparison with the total pages.
\<close>

definition page_error :: "'r ext \<Rightarrow> pyval \<Rightarrow> nat \<Rightarrow> (exn \<times> bool) option" where
  "page_error X data pg =
     (case events_of data of
        Inl e \<Rightarrow> Some (e, False)
      | Inr events \<Rightarrow>
          if \<not> truthy events then None
          else (case parse_events X events of
                  Inl e \<Rightarrow> Some (e, False)
                | Inr rows \<Rightarrow>
                    (case (if rows = [] then None else refuses X rows) of
                       Some (ByServer e) \<Rightarrow> Some (e, True)
                     | Some (ByDriver e n) \<Rightarrow> Some (e, False)
                     | None \<Rightarrow>
                         (case last_page X data pg of
                            Inl e \<Rightarrow> Some (e, False)
                          | Inr b \<Rightarrow> None))))"

definition response_rows :: "'r ext \<Rightarrow> exn + pyval \<Rightarrow> row list" where
  "response_rows X resp = (case resp of Inl e \<Rightarrow> [] | Inr data \<Rightarrow> loaded_rows X data)"

text \<open>
  The spec's words for the two ways a page ends the pagination, read off a response body
  of the documented shape, independently of the code. \<open>page_records\<close> are the records
  of the page: the list under \<open>_embedded.events\<close> of the body, no record when the body
  has no such member. \<open>total_pages\<close> is the number of pages the server reports, the
  integer under \<open>page.totalPages\<close>. A page ends the pagination when it returns zero
  records, or when its index has reached the last page reported
  (\<open>index >= totalPages - 1\<close>).
\<close>

definition page_records :: "pyval \<Rightarrow> pyval list option" where
  "page_records data =
     (case data of
        PDict d \<Rightarrow>
          (case map_of d ''_embedded'' of
             None \<Rightarrow> Some []
           | Some (PDict e) \<Rightarrow>
               (case map_of e ''events'' of
                  None \<Rightarrow> Some []
                | Some (PList evs) \<Rightarrow> Some evs
                | Some v \<Rightarrow> None)
           | Some v \<Rightarrow> None)
      | v \<Rightarrow> None)"

definition total_pages :: "pyval \<Rightarrow> int option" where
  "total_pages data =
     (case data of
        PDict d \<Rightarrow>
          (case map_of d ''page'' of
             Some (PDict p) \<Rightarrow>
               (case map_of p ''totalPages'' of Some (PInt t) \<Rightarrow> Some t | v \<Rightarrow> None)
           | v \<Rightarrow> None)
      | v \<Rightarrow> None)"

definition ends_pagination :: "pyval \<Rightarrow> nat \<Rightarrow> bool" where
  "ends_pagination data pg =
     (page_records data = Some [] \<or>
      (case total_pages data of None \<Rightarrow> False | Some t \<Rightarrow> t - 1 \<le> int pg))"



text \<open>A sequence of ingestion runs, each in its own environment.\<close>

datatype 'r invocation =
    CsvRun "'r ext" string
  | ApiRun "'r ext" ingestor string int

fun ingest :: "'r invocation \<Rightarrow> 'r world \<Rightarrow> 'r world" where
  "ingest (CsvRun X csv_path) w = snd (CsvIngestor_run X csv_path w)"
| "ingest (ApiRun X self country_code max_pages) w =
     snd (TicketmasterIngestor_run X self country_code max_pages w)"

definition ingest_all :: "'r invocation list \<Rightarrow> 'r world \<Rightarrow> 'r world" where
  "ingest_all invs w = foldl (\<lambda>w i. ingest i w) w invs"

text \<open>The staging table holds each canonical id pair at most once.\<close>

definition keyed :: "row list \<Rightarrow> bool" where
  "keyed tbl = distinct (map row_key tbl)"

text \<open>The HTTP exchanges made between an earlier world and a later one.\<close>

definition exchanges :: "'r world \<Rightarrow> 'r world \<Rightarrow> (params \<times> (exn + pyval)) list" where
  "exchanges w w' = drop (length (http_log w)) (http_log w')"

text \<open>
  A list of exchanges is a pagination of \<open>k\<close> pages from page \<open>pg\<close> on: the page indices
  requested never decrease and are exactly \<open>pg, ..., pg + k - 1\<close>; there are at most three
  requests per page; every request carries the parameters the ingestor builds for its
  page; and no response but the last ends the pagination.
\<close>

definition paged ::
  "ingestor \<Rightarrow> string \<Rightarrow> nat \<Rightarrow> nat \<Rightarrow> (params \<times> (exn + pyval)) list \<Rightarrow> bool" where
  "paged self country_code pg k new =
     (sorted (map (page \<circ> fst) new) \<and>
      (page \<circ> fst) ` set new = {pg..<pg + k} \<and>
      length new \<le> 3 * k \<and>
      (\<forall>x\<in>set new. fst x = page_params self country_code (page (fst x))) \<and>
      (\<forall>x\<in>set (butlast new). \<forall>data. snd x = Inr data \<longrightarrow>
         \<not> ends_pagination data (page (fst x))))"

text \<open>
  The open transaction of a connection has touched the staging table only, by appending
  to it.
\<close>

definition synced :: "'r world \<Rightarrow> bool" where
  "synced w =
     (ingestion_log (committed w) = ingestion_log (working w) \<and>
      other (committed w) = other (working w) \<and>
      prefix (raw_events (committed w)) (raw_events (working w)))"

text \<open>
  What the loop of the API run may do to the world between two points: it appends HTTP
  exchanges, it leaves the run log and the rest of the database alone, it only appends
  to the staging table and keeps it keyed; and if the open transaction had only appended
  to the staging table before, so it is afterwards, what was committed is committed
  still, and the rows of every response the loop loaded are in the staging table as
  committed, by key.
\<close>

definition db_grows :: "'r ext \<Rightarrow> 'r world \<Rightarrow> 'r world \<Rightarrow> bool" where
  "db_grows X w w' =
     (http_log w' = http_log w @ exchanges w w' \<and>
      ingestion_log (working w') = ingestion_log (working w) \<and>
      other (working w') = other (working w) \<and>
      prefix (raw_events (working w)) (raw_events (working w')) \<and>
      (keyed (raw_events (working w)) \<longrightarrow> keyed (raw_events (working w'))) \<and>
      (synced w \<longrightarrow>
         synced w' \<and>
         prefix (raw_events (committed w)) (raw_events (committed w')) \<and>
         (\<forall>x\<in>set (exchanges w w').
            row_key ` set (response_rows X (snd x))
              \<subseteq> row_key ` set (raw_events (committed w')))))"

text \<open>
  How the loop of the API run ends after the HTTP exchanges \<open>new\<close>, on a connection that
  was in order: the exception it raises, if any, and whether the transaction is aborted
  then. The last exchange decides: a failed one was the third attempt of a fetch, which
  raises \<open>RetryError\<close>; a response body is handled as the body of the page requested.
\<close>

definition run_outcome ::
  "'r ext \<Rightarrow> (params \<times> (exn + pyval)) list \<Rightarrow> (exn \<times> bool) option" where
  "run_outcome X new =
     (if new = [] then None
      else (case snd (last new) of
              Inl e \<Rightarrow> Some (RetryError e, False)
            | Inr data \<Rightarrow> page_error X data (page (fst (last new)))))"

text \<open>The lines logged between an earlier world and a later one.\<close>

definition logged :: "'r world \<Rightarrow> 'r world \<Rightarrow> (level \<times> string) list" where
  "logged w w' = drop (length (out w)) (out w')"

text \<open>
  The lines of the log that mark the progress of the pipeline, in the order of the
  stages: each of the four script stages logs a line when it starts and a line when it
  has completed, the summary logs its heading when it starts, and \<open>main\<close> logs the last
  line when the summary has returned.
\<close>

definition stage_marks :: "(level \<times> string) list" where
  "stage_marks =
     [(Info, ''STEP 3: Transform & build dimensions''), (Success, ''Transform complete''),
      (Info, ''STEP 4: Load fact table''), (Success, ''Fact load complete''),
      (Info, ''STEP 5: Data quality checks''), (Success, ''Quality checks complete''),
      (Info, ''STEP 6: Create KPI views''), (Success, ''KPI views ready''),
      (Info, ''  PIPELINE SUMMARY''), (Success, ''Pipeline completed successfully!'')]"

definition marks :: "(level \<times> string) list \<Rightarrow> (level \<times> string) list" where
  "marks ls = filter (\<lambda>l. l \<in> set stage_marks) ls"

text \<open>
  A procedure logs the marks \<open>S\<close> when it returns and one of the lists in \<open>F\<close> when it
  raises, and only ever appends to the log.
\<close>

definition traces ::
  "('r world \<Rightarrow> (exn + 'a) \<times> 'r world) \<Rightarrow> (level \<times> string) list
     \<Rightarrow> (level \<times> string) list set \<Rightarrow> bool" where
  "traces m S F =
     (\<forall>w. out (snd (m w)) = out w @ logged w (snd (m w)) \<and>
          (if isl (fst (m w)) then marks (logged w (snd (m w))) \<in> F
           else marks (logged w (snd (m w))) = S))"

section \<open>Concrete environments for the worked examples\<close>

text \<open>
  A column of a frame that holds no text and no boolean: the library reads it as a column
  of floats when a cell is missing, and since its version 1.3 leaves \<open>nan\<close> in the missing
  cells of such a column.
\<close>

definition numeric_column :: "(string \<times> pyval) list list \<Rightarrow> string \<Rightarrow> bool" where
  "numeric_column df k =
     list_all (\<lambda>r. case map_of r k of
                      Some (PStr s) \<Rightarrow> False
                    | Some (PBool b) \<Rightarrow> False
                    | v \<Rightarrow> True) df"

text \<open>
  An environment in which every collaborator answers trivially, an empty database and an
  initial world; the examples below override the fields they exercise.
\<close>

definition demo_ext :: "unit ext" where
  "demo_ext =
     \<lparr>json_dumps = (\<lambda>v. ''{}''),
      str_container = (\<lambda>v. ''[]''),
      exc_str = exn_class,
      float_last_page = (\<lambda>p s. True),
      server = (\<lambda>n q. Inr (PDict [])),
      read_csv = (\<lambda>path. Inr []),
      keeps_nan = numeric_column,
      refuses = (\<lambda>rows. None),
      read_text = (\<lambda>path. Inr ''SELECT 1''),
      execute = (\<lambda>sql d. Inr d),
      query_count = (\<lambda>sql d. Inr 0),
      uuid4 = ''run-1'',
      getenv = (\<lambda>name. if name = ''TICKETMASTER_API_KEY'' then Some ''key'' else None),
      parse_int = (\<lambda>s. Inl (ValueError s))\<rparr>"

definition empty_db :: "unit db" where
  "empty_db = \<lparr>raw_events = [], ingestion_log = [], other = ()\<rparr>"

definition world0 :: "unit world" where
  "world0 =
     \<lparr>committed = empty_db, working = empty_db, http_log = [], sleeps = [], sql_log = [],
      clock = 0, out = [], aborted = False\<rparr>"

text \<open>
  A frame of two rows with the columns \<open>event_id\<close>, \<open>event_name\<close> and \<open>price_min\<close>, all
  cells of both rows missing.
\<close>

definition null_frame_row :: "(string \<times> pyval) list" where
  "null_frame_row =
     [(''event_id'', PFloat ''nan''), (''event_name'', PFloat ''nan''),
      (''price_min'', PFloat ''nan'')]"

definition null_frame_ext :: "unit ext" where
  "null_frame_ext = demo_ext\<lparr>read_csv := (\<lambda>path. Inr [null_frame_row, null_frame_row])\<rparr>"

text \<open>An event with an id, a name and a price range, and nothing else.\<close>

definition demo_event :: pyval where
  "demo_event =
     PDict [(''id'', PStr ''E1''), (''name'', PStr ''Show''),
            (''priceRanges'', PList [PDict [(''min'', PInt 15)]])]"


text \<open>An environment whose warehouse tables do not exist: three summary queries fail.\<close>

definition no_warehouse_ext :: "unit ext" where
  "no_warehouse_ext =
     demo_ext\<lparr>query_count :=
       (\<lambda>sql d. if take 30 sql = ''SELECT COUNT(*) FROM warehouse''
                 then Inl (Raised ''UndefinedTable'' ''relation does not exist'')
                 else Inr 1234)\<rparr>"


text \<open>An ingestor, and an environment in which every request fails to connect.\<close>

definition demo_ingestor :: ingestor where
  "demo_ingestor = \<lparr>api_key = ''key'', batch_size = 100\<rparr>"

definition down_ext :: "unit ext" where
  "down_ext = demo_ext\<lparr>server := (\<lambda>n q. Inl (Raised ''ConnectionError'' ''unreachable''))\<rparr>"

text \<open>An environment in which the first two requests time out and the third is answered.\<close>

definition flaky_ext :: "unit ext" where
  "flaky_ext =
     demo_ext\<lparr>server :=
       (\<lambda>n q. if n < 2 then Inl (Raised ''Timeout'' ''timed out'') else Inr (PDict []))\<rparr>"

text \<open>
  A server with three pages. Pages 0 and 1 carry one event each and report three pages in
  total, page 2 is empty; the second request ever made times out.
\<close>

definition page_body :: pyval where
  "page_body =
     PDict [(''_embedded'', PDict [(''events'', PList [demo_event])]),
            (''page'', PDict [(''totalPages'', PInt 3)])]"

definition paging_ext :: "unit ext" where
  "paging_ext =
     demo_ext\<lparr>server :=
       (\<lambda>n q. if n = 1 then Inl (Raised ''Timeout'' ''timed out'')
               else if page q < 2 then Inr page_body else Inr (PDict []))\<rparr>"

text \<open>A server that reports two pages in total and has one event on every page.\<close>

definition two_page_body :: pyval where
  "two_page_body =
     PDict [(''_embedded'', PDict [(''events'', PList [demo_event])]),
            (''page'', PDict [(''totalPages'', PInt 2)])]"

definition two_page_ext :: "unit ext" where
  "two_page_ext = demo_ext\<lparr>server := (\<lambda>n q. Inr two_page_body)\<rparr>"

text \<open>A server whose page 0 is as above and which is unreachable from then on.\<close>

definition failing_ext :: "unit ext" where
  "failing_ext =
     demo_ext\<lparr>server :=
       (\<lambda>n q. if page q = 0 then Inr page_body
               else Inl (Raised ''ConnectionError'' ''unreachable''))\<rparr>"

text \<open>
  A server with two pages of one event each, the second event named \<open>Gala\<close>, and a
  database that refuses a batch with that event, by an error of the server.
\<close>

definition gala_event :: pyval where
  "gala_event = PDict [(''id'', PStr ''E2''), (''name'', PStr ''Gala'')]"

definition gala_body :: pyval where
  "gala_body =
     PDict [(''_embedded'', PDict [(''events'', PList [gala_event])]),
            (''page'', PDict [(''totalPages'', PInt 3)])]"

definition refusing_ext :: "unit ext" where
  "refusing_ext =
     demo_ext\<lparr>server := (\<lambda>n q. if page q = 0 then Inr page_body else Inr gala_body),
       refuses := (\<lambda>rows. if PStr ''Gala'' \<in> set (map event_name rows)
                          then Some (ByServer (Raised ''StringDataRightTruncation''
                                       ''value too long for type character varying(3)''))
                          else None)\<rparr>"

text \<open>A server whose page 0 is as above and whose page 1 is a JSON array, not an object.\<close>

definition array_body_ext :: "unit ext" where
  "array_body_ext =
     demo_ext\<lparr>server := (\<lambda>n q. if page q = 0 then Inr page_body else Inr (PList []))\<rparr>"

text \<open>
  A frame of two rows with the columns \<open>event_id\<close>, \<open>event_name\<close>, \<open>price_min\<close> and
  \<open>venue_lat\<close>; the second row has only its id.
\<close>

definition priced_frame :: "(string \<times> pyval) list list" where
  "priced_frame =
     [[(''event_id'', PStr ''E1''), (''event_name'', PStr ''Show''),
       (''price_min'', PFloat ''12.5''), (''venue_lat'', PFloat ''52.5'')],
      [(''event_id'', PStr ''E2''), (''event_name'', PFloat ''nan''),
       (''price_min'', PFloat ''nan''), (''venue_lat'', PFloat ''nan'')]]"

definition priced_ext :: "unit ext" where
  "priced_ext = demo_ext\<lparr>read_csv := (\<lambda>path. Inr priced_frame)\<rparr>"

text \<open>An environment in which the data-quality script fails; a script's text is its path.\<close>

definition bad_quality_ext :: "unit ext" where
  "bad_quality_ext =
     demo_ext\<lparr>read_text := (\<lambda>path. Inr path),
       execute := (\<lambda>sql d. if sql = ''files/data_quality.sql''
                            then Inl (Raised ''SyntaxError'' ''syntax error at or near'')
                            else Inr d)\<rparr>"

section \<open>Verified properties\<close>

subsection \<open>Helper facts\<close>

lemma map_of_where_row:
  "map_of (where_row X df r) k =
     map_option (\<lambda>v. if notnull v then v
                      else if keeps_nan X df k then PFloat ''nan'' else PNone) (map_of r k)"
  by (induction r) (auto simp: where_row_def)

lemma dict_get_where_row_null:
  "map_of r k = Some v \<Longrightarrow> \<not> notnull v \<Longrightarrow>
     dict_get (where_row X df r) k d = (if keeps_nan X df k then PFloat ''nan'' else PNone)"
  by (simp add: dict_get_def map_of_where_row)

lemma dict_get_where_row_absent:
  "map_of r k = None \<Longrightarrow> dict_get (where_row X df r) k d = d"
  by (simp add: dict_get_def map_of_where_row)

subsection \<open>Facts about the sequencing of fallible steps\<close>

lemma bnd_Inr_iff: "bnd m f = Inr y \<longleftrightarrow> (\<exists>x. m = Inr x \<and> f x = Inr y)"
  by (cases m) auto


lemma map_e_all:
  "map_e f xs = Inr ys \<Longrightarrow> (\<And>x y. f x = Inr y \<Longrightarrow> P y) \<Longrightarrow> \<forall>y\<in>set ys. P y"
  by (induction xs arbitrary: ys) (auto simp: bnd_Inr_iff)



subsection \<open>The normalisers\<close>

lemma parse_event_source: "parse_event X ev = Inr r \<Longrightarrow> source r = ''ticketmaster''"
  unfolding parse_event_def bnd_Inr_iff by auto

lemma parse_events_source:
  "parse_events X evs = Inr rows \<Longrightarrow> \<forall>r\<in>set rows. source r = ''ticketmaster''"
  unfolding parse_events_def bnd_Inr_iff
  by (auto dest!: map_e_all [where P = "\<lambda>r. source r = ''ticketmaster''"]
      simp: parse_event_source)


subsection \<open>The CSV ingestor builds its rows without validation\<close>

lemma csv_row_null_plain:
  "null_cell r k \<Longrightarrow>
     dict_get (where_row X df r) k d = (if keeps_nan X df k then PFloat ''nan'' else PNone)"
  by (auto simp: null_cell_def dict_get_where_row_null split: option.splits)

lemma CsvIngestor_run_ok:
  "read_csv X path = Inr df \<Longrightarrow>
     fst (CsvIngestor_run X path w) = Inr (int (length df)) \<and>
     raw_events (committed (snd (CsvIngestor_run X path w))) =
       foldl insert_on_conflict_do_nothing (raw_events (committed w))
         (map (\<lambda>r. csv_row X (where_row X df r)) df)"
  by (simp add: CsvIngestor_run_def Let_def where_notnull_def logger_def get_db_connection_def
      execute_batch_def insert_log_def commit_def close_def comp_def)

text \<open>
  What the CSV ingestor does with the rows of the frame, for every answer of the library.
  It builds a staging row for every row of the frame and submits it to the bulk insert,
  with no validation and no error per row: once the file has been read, the run returns
  the number of frame rows, and the staging table is the old one with the row built from
  each frame row offered to the insert, in order. When the column \<open>event_id\<close> is absent
  the dedup key \<open>raw_event_id\<close> is the empty string. A null cell of a column in which the
  library puts \<open>None\<close> is stored as the text \<open>None\<close> in the fields wrapped in \<open>str\<close> and
  as null in the others; a null cell of a column in which the library leaves \<open>nan\<close> is
  stored as the text \<open>nan\<close> in the former and as the float \<open>nan\<close> in the latter.
\<close>

lemma csv_rows_built:
  "(read_csv X path = Inr df \<longrightarrow>
      fst (CsvIngestor_run X path w) = Inr (int (length df)) \<and>
      raw_events (committed (snd (CsvIngestor_run X path w))) =
        foldl insert_on_conflict_do_nothing (raw_events (committed w))
          (map (\<lambda>r. csv_row X (where_row X df r)) df)) \<and>
   (map_of r ''event_id'' = None \<longrightarrow>
      raw_event_id (csv_row X (where_row X df r)) = PStr '''') \<and>
   (null_cell r k \<and> \<not> keeps_nan X df k \<longrightarrow>
      (k = ''event_id'' \<longrightarrow> raw_event_id (csv_row X (where_row X df r)) = PStr ''None'') \<and>
      (k = ''event_date'' \<longrightarrow> event_date (csv_row X (where_row X df r)) = PStr ''None'') \<and>
      (k = ''event_time'' \<longrightarrow> event_time (csv_row X (where_row X df r)) = PStr ''None'') \<and>
      (k = ''price_min'' \<longrightarrow> price_min (csv_row X (where_row X df r)) = PStr ''None'') \<and>
      (k = ''price_max'' \<longrightarrow> price_max (csv_row X (where_row X df r)) = PStr ''None'') \<and>
      (k = ''event_name'' \<longrightarrow> event_name (csv_row X (where_row X df r)) = PNone) \<and>
      (k = ''venue_name'' \<longrightarrow> venue_name (csv_row X (where_row X df r)) = PNone) \<and>
      (k = ''venue_city'' \<longrightarrow> venue_city (csv_row X (where_row X df r)) = PNone) \<and>
      (k = ''venue_country'' \<longrightarrow> venue_country (csv_row X (where_row X df r)) = PNone) \<and>
      (k = ''venue_lat'' \<longrightarrow> venue_lat (csv_row X (where_row X df r)) = PNone) \<and>
      (k = ''venue_lon'' \<longrightarrow> venue_lon (csv_row X (where_row X df r)) = PNone) \<and>
      (k = ''category'' \<longrightarrow> category (csv_row X (where_row X df r)) = PNone) \<and>
      (k = ''subcategory'' \<longrightarrow> subcategory (csv_row X (where_row X df r)) = PNone) \<and>
      (k = ''currency'' \<longrightarrow> currency (csv_row X (where_row X df r)) = PNone) \<and>
      (k = ''url'' \<longrightarrow> url (csv_row X (where_row X df r)) = PNone) \<and>
      (k = ''status'' \<longrightarrow> status (csv_row X (where_row X df r)) = PNone)) \<and>
   (null_cell r k \<and> keeps_nan X df k \<longrightarrow>
      (k = ''event_id'' \<longrightarrow> raw_event_id (csv_row X (where_row X df r)) = PStr ''nan'') \<and>
      (k = ''event_date'' \<longrightarrow> event_date (csv_row X (where_row X df r)) = PStr ''nan'') \<and>
      (k = ''event_time'' \<longrightarrow> event_time (csv_row X (where_row X df r)) = PStr ''nan'') \<and>
      (k = ''price_min'' \<longrightarrow> price_min (csv_row X (where_row X df r)) = PStr ''nan'') \<and>
      (k = ''price_max'' \<longrightarrow> price_max (csv_row X (where_row X df r)) = PStr ''nan'') \<and>
      (k = ''event_name'' \<longrightarrow> event_name (csv_row X (where_row X df r)) = PFloat ''nan'') \<and>
      (k = ''venue_name'' \<longrightarrow> venue_name (csv_row X (where_row X df r)) = PFloat ''nan'') \<and>
      (k = ''venue_city'' \<longrightarrow> venue_city (csv_row X (where_row X df r)) = PFloat ''nan'') \<and>
      (k = ''venue_country'' \<longrightarrow>
         venue_country (csv_row X (where_row X df r)) = PFloat ''nan'') \<and>
      (k = ''venue_lat'' \<longrightarrow> venue_lat (csv_row X (where_row X df r)) = PFloat ''nan'') \<and>
      (k = ''venue_lon'' \<longrightarrow> venue_lon (csv_row X (where_row X df r)) = PFloat ''nan'') \<and>
      (k = ''category'' \<longrightarrow> category (csv_row X (where_row X df r)) = PFloat ''nan'') \<and>
      (k = ''subcategory'' \<longrightarrow> subcategory (csv_row X (where_row X df r)) = PFloat ''nan'') \<and>
      (k = ''currency'' \<longrightarrow> currency (csv_row X (where_row X df r)) = PFloat ''nan'') \<and>
      (k = ''url'' \<longrightarrow> url (csv_row X (where_row X df r)) = PFloat ''nan'') \<and>
      (k = ''status'' \<longrightarrow> status (csv_row X (where_row X df r)) = PFloat ''nan''))"
proof -
  have "dict_get (where_row X df r) k d = (if keeps_nan X df k then PFloat ''nan'' else PNone)"
    if "null_cell r k" for d
    using that by (rule csv_row_null_plain)
  then show ?thesis
    using CsvIngestor_run_ok [of X path df w]
    by (auto simp: csv_row_def dict_get_where_row_absent)
qed

text \<open>
  Claim C10. The claim does not hold of the code where the library leaves \<open>nan\<close> in a
  column. The frame read has a row with a text id and the cells of \<open>event_name\<close>,
  \<open>price_min\<close> and \<open>venue_lat\<close> missing; the last two are columns of floats. The run
  builds both rows without any check and reports 2. The missing name, in a column of
  text, is stored as null, as the claim says. The missing price is stored as the text
  \<open>nan\<close>, where the claim says the text \<open>None\<close>, and the missing latitude is stored as
  the float \<open>nan\<close>, where the claim says null: the replacement that the source's comment
  announces (NaN to None) has not taken place in these columns.
\<close>

theorem csv_nan_cells_kept:
  "read_csv priced_ext ''events.csv'' = Inr priced_frame \<and>
   null_cell (priced_frame ! 1) ''event_name'' \<and>
   null_cell (priced_frame ! 1) ''price_min'' \<and>
   null_cell (priced_frame ! 1) ''venue_lat'' \<and>
   fst (CsvIngestor_run priced_ext ''events.csv'' world0) = Inr 2 \<and>
   map (\<lambda>r. (raw_event_id r, event_name r, price_min r, venue_lat r))
     (raw_events (committed (snd (CsvIngestor_run priced_ext ''events.csv'' world0)))) =
     [(PStr ''E1'', PStr ''Show'', PStr ''12.5'', PFloat ''52.5''),
      (PStr ''E2'', PNone, PStr ''nan'', PFloat ''nan'')]"
  by (simp add: priced_ext_def demo_ext_def priced_frame_def null_cell_def notnull_def
      numeric_column_def CsvIngestor_run_def Let_def where_notnull_def where_row_def
      csv_row_def dict_get_def logger_def get_db_connection_def execute_batch_def
      insert_log_def commit_def close_def world0_def empty_db_def
      insert_on_conflict_do_nothing_def row_key_def)

text \<open>
  Claim C8, as stated, fails: the spec names the two source identifiers \<open>file\<close> and
  \<open>api\<close>, but the CSV ingestor tags its rows \<open>csv\<close> and the API ingestor tags its rows
  \<open>ticketmaster\<close>.
\<close>

theorem source_tags_counterexample:
  "source (csv_row demo_ext null_frame_row) \<noteq> ''file'' \<and>
   (case parse_event demo_ext demo_event of
      Inl e \<Rightarrow> False
    | Inr row \<Rightarrow> source row \<noteq> ''api'')"
  by (simp add: csv_row_def parse_event_def demo_event_def dict_get_def)

text \<open>
  Claim C8, amended. Every staging row carries one of two fixed source identifiers: every
  row the CSV ingestor builds is tagged \<open>csv\<close>, and every row the API ingestor builds,
  from one event or from the events of a page, is tagged \<open>ticketmaster\<close>.
\<close>

theorem source_tags:
  "source (csv_row X r) = ''csv'' \<and>
   (\<forall>row. parse_event X ev = Inr row \<longrightarrow> source row = ''ticketmaster'') \<and>
   (\<forall>rows. parse_events X evs = Inr rows \<longrightarrow> (\<forall>row\<in>set rows. source row = ''ticketmaster''))"
  using parse_event_source [of X ev] parse_events_source [of X evs]
  by (simp add: csv_row_def)

theorem source_tags_witness:
  "source (csv_row demo_ext null_frame_row) = ''csv'' \<and>
   parse_event demo_ext demo_event =
     Inr \<lparr>source = ''ticketmaster'', raw_event_id = PStr ''E1'', raw_payload = PStr ''{}'',
          event_name = PStr ''Show'', event_date = PNone, event_time = PNone,
          venue_name = PNone, venue_city = PNone, venue_country = PNone, venue_lat = PNone,
          venue_lon = PNone, category = PNone, subcategory = PNone, price_min = PStr ''15'',
          price_max = PStr '''', currency = PNone, url = PNone, status = PNone\<rparr> \<and>
   map source (projr (parse_events demo_ext (PList [demo_event, demo_event])))
     = [''ticketmaster'', ''ticketmaster'']"
  using source_tags [of demo_ext null_frame_row demo_event "PList [demo_event, demo_event]"]
  by (simp add: csv_row_def parse_event_def parse_events_def demo_event_def dict_get_def
      demo_ext_def str_int_def digit_chars.simps)




subsection \<open>The run record of the CSV ingestor\<close>





subsection \<open>The summary is best-effort\<close>

lemma summary_query_eq:
  "summary_query X q w =
     w\<lparr>sql_log := sql_log w @ [snd q], out := out w @ [summary_line X (working w) q]\<rparr>"
  by (simp add: summary_query_def summary_line_def logger_def split: sum.splits)

lemma foldl_summary_query:
  "foldl (\<lambda>w q. summary_query X q w) w qs =
     w\<lparr>sql_log := sql_log w @ map snd qs, out := out w @ map (summary_line X (working w)) qs\<rparr>"
  by (induction qs arbitrary: w) (simp_all add: summary_query_eq)

text \<open>
  Claim C9. Whenever the summary stage runs, it returns without raising, whatever the
  seven queries do: each of the seven fixed queries is executed, in the order of the
  table, and each is answered by one line of the log at its position, an information
  line with the count when the query returns and a warning with the error when it
  raises. The stage changes nothing in the database.
\<close>

theorem summary_best_effort:
  "fst (print_pipeline_summary X w) = Inr () \<and>
   sql_log (snd (print_pipeline_summary X w)) = sql_log w @ map snd queries \<and>
   out (snd (print_pipeline_summary X w)) =
     out w @ [(Info, replicate 55 CHR ''=''), (Info, ''  PIPELINE SUMMARY''),
              (Info, replicate 55 CHR ''='')]
       @ map (summary_line X (working w)) queries @ [(Info, replicate 55 CHR ''='')] \<and>
   working (snd (print_pipeline_summary X w)) = working w \<and>
   committed (snd (print_pipeline_summary X w)) = committed w \<and>
   length queries = 7 \<and>
   (\<forall>d lq. fst (summary_line X d lq) = (if isl (query_count X (snd lq) d) then Warning else Info))"
  by (simp add: print_pipeline_summary_def Let_def foldl_summary_query logger_def queries_def
      summary_line_def split: sum.splits)

text \<open>
  With the three warehouse tables missing, all seven queries are still executed and the
  third to fifth are reported as warnings.
\<close>

theorem summary_best_effort_witness:
  "fst (print_pipeline_summary no_warehouse_ext world0) = Inr () \<and>
   sql_log (snd (print_pipeline_summary no_warehouse_ext world0)) = map snd queries \<and>
   map fst (out (snd (print_pipeline_summary no_warehouse_ext world0))) =
     [Info, Info, Info, Info, Info, Warning, Warning, Warning, Info, Info, Info]"
  using summary_best_effort [of no_warehouse_ext world0]
  by (simp add: world0_def queries_def summary_line_def no_warehouse_ext_def demo_ext_def)

subsection \<open>Fetching a page with retries\<close>

lemma fetch_events_unfold:
  "fetch_events X self cc pg w =
     (let n = length (http_log w); q = page_params self cc pg in
      case server X n q of
        Inr v \<Rightarrow> (Inr v, w\<lparr>http_log := http_log w @ [(q, Inr v)]\<rparr>)
      | Inl e1 \<Rightarrow>
          (case server X (n + 1) q of
             Inr v \<Rightarrow>
               (Inr v, w\<lparr>http_log := http_log w @ [(q, Inl e1), (q, Inr v)],
                         sleeps := sleeps w @ [2], clock := clock w + 2\<rparr>)
           | Inl e2 \<Rightarrow>
               (case server X (n + 2) q of
                  Inr v \<Rightarrow>
                    (Inr v, w\<lparr>http_log := http_log w @ [(q, Inl e1), (q, Inl e2), (q, Inr v)],
                              sleeps := sleeps w @ [2, 2], clock := clock w + 4\<rparr>)
                | Inl e3 \<Rightarrow>
                    (Inl (RetryError e3),
                     w\<lparr>http_log := http_log w @ [(q, Inl e1), (q, Inl e2), (q, Inl e3)],
                       sleeps := sleeps w @ [2, 2], clock := clock w + 4\<rparr>))))"
  by (simp add: fetch_events_def retrying.simps fetch_events_body_def http_get_def Let_def
      sleep_def wait_exponential_def split: sum.splits)

lemma wait_exponential_bounds:
  "wait_exponential 2 10 n = max 2 (min (2 ^ (n - 1)) 10) \<and> 2 \<le> wait_exponential 2 10 n \<and>
   wait_exponential 2 10 n \<le> 10"
  by (simp add: wait_exponential_def)

lemma small_lists:
  "[Suc 0..<2] = [Suc 0]" "[Suc 0..<3] = [Suc 0, 2]"
  "replicate 2 x = [x, x]" "replicate 3 x = [x, x, x]"
  by (simp_all add: upt_rec eval_nat_numeral)

text \<open>
  Claim C7, as stated, fails in one point: when the three attempts are used up, the
  decorator raises \<open>tenacity\<close>'s \<open>RetryError\<close>, which carries the failure of the last
  attempt; the sources define no \<open>SourceUnavailableError\<close>.
\<close>

theorem fetch_events_retries_counterexample:
  "fst (fetch_events down_ext demo_ingestor ''DE'' 0 world0) =
     Inl (RetryError (Raised ''ConnectionError'' ''unreachable'')) \<and>
   exn_class (RetryError (Raised ''ConnectionError'' ''unreachable'')) \<noteq> ''SourceUnavailableError''"
  by (simp add: fetch_events_unfold Let_def down_ext_def demo_ext_def)

text \<open>
  Claim C7, amended. Every per-page fetch makes between one and three HTTP requests, all
  for the same page with the same parameters; every attempt but the last raised (any
  exception, network errors and non-2xx responses among them), and it is retried after
  the wait \<open>wait_exponential\<close> gives for the attempt number: \<open>2 ^ (n - 1)\<close> clamped
  between 2 and 10, so never more than 10. The fetch returns the body of the last attempt
  if that succeeded; if all three attempts raised it raises \<open>RetryError\<close> with the third
  failure, and the loop of the run ends at once with that exception, in the world the
  fetch left (no further request).
\<close>

theorem fetch_events_retries:
  "(let q = page_params self cc pg;
        res = fetch_events X self cc pg w;
        new = drop (length (http_log w)) (http_log (snd res));
        waits = drop (length (sleeps w)) (sleeps (snd res))
    in http_log (snd res) = http_log w @ new \<and> sleeps (snd res) = sleeps w @ waits \<and>
       1 \<le> length new \<and> length new \<le> 3 \<and>
       map fst new = replicate (length new) q \<and>
       (\<forall>r\<in>set (butlast (map snd new)). isl r) \<and>
       waits = map (wait_exponential 2 10) [1..<length new] \<and>
       (\<forall>s\<in>set waits. s \<le> 10) \<and>
       (case fst res of
          Inr v \<Rightarrow> last (map snd new) = Inr v
        | Inl err \<Rightarrow> length new = 3 \<and> (\<exists>e. last (map snd new) = Inl e \<and> err = RetryError e))) \<and>
   (\<forall>n. wait_exponential 2 10 n = max 2 (min (2 ^ (n - 1)) 10) \<and> wait_exponential 2 10 n \<le> 10) \<and>
   (let w1 = logger Info (''Fetching page '' @ str_int (int pg) @ '' | country='' @ cc) w
    in \<forall>err. fst (fetch_events X self cc pg w1) = Inl err \<longrightarrow> int pg < max_pages \<longrightarrow>
         run_pages X self cc rid max_pages pg total_loaded w
           = (Inl err, snd (fetch_events X self cc pg w1)))"
proof -
  have abort: "run_pages X self cc rid max_pages pg total_loaded w = (Inl err, snd (fetch_events X self cc pg w1))"
    if "fst (fetch_events X self cc pg w1) = Inl err" "int pg < max_pages"
      "w1 = logger Info (''Fetching page '' @ str_int (int pg) @ '' | country='' @ cc) w"
    for err w1
    using that
    by (cases "fetch_events X self cc pg w1") (simp add: run_pages.simps [of _ _ _ _ _ pg] run_page_def)
  show ?thesis
    using wait_exponential_bounds abort
    by (auto simp: fetch_events_unfold [of X self cc pg w] Let_def small_lists
        wait_exponential_def split: sum.splits)
qed

text \<open>
  A server that times out twice and then answers: three requests, waits of 2 and 2, and
  the body is returned. A server that is unreachable: three requests for page 0 and no
  request for any other page, and the loop ends with \<open>RetryError\<close>.
\<close>

theorem fetch_events_retries_witness:
  "fst (fetch_events flaky_ext demo_ingestor ''DE'' 0 world0) = Inr (PDict []) \<and>
   map snd (http_log (snd (fetch_events flaky_ext demo_ingestor ''DE'' 0 world0))) =
     [Inl (Raised ''Timeout'' ''timed out''), Inl (Raised ''Timeout'' ''timed out''), Inr (PDict [])] \<and>
   sleeps (snd (fetch_events flaky_ext demo_ingestor ''DE'' 0 world0)) = [2, 2] \<and>
   fst (run_pages down_ext demo_ingestor ''DE'' ''run-1'' 5 0 0 world0) =
     Inl (RetryError (Raised ''ConnectionError'' ''unreachable'')) \<and>
   map (page \<circ> fst) (http_log (snd (run_pages down_ext demo_ingestor ''DE'' ''run-1'' 5 0 0 world0)))
     = [0, 0, 0] \<and>
   sleeps (snd (run_pages down_ext demo_ingestor ''DE'' ''run-1'' 5 0 0 world0)) = [2, 2]"
  using fetch_events_retries [of demo_ingestor "''DE''" 0 flaky_ext world0 5 "''run-1''" 0]
    fetch_events_retries [of demo_ingestor "''DE''" 0 down_ext world0 5 "''run-1''" 0]
  by (simp add: fetch_events_unfold Let_def flaky_ext_def down_ext_def demo_ext_def world0_def
      logger_def page_params_def)

subsection \<open>Facts about the bulk insert\<close>

lemma keys_insert:
  "row_key ` set (insert_on_conflict_do_nothing tbl r) = insert (row_key r) (row_key ` set tbl)"
  by (auto simp: insert_on_conflict_do_nothing_def)

lemma keys_foldl:
  "row_key ` set (foldl insert_on_conflict_do_nothing tbl rows) =
     row_key ` set tbl \<union> row_key ` set rows"
  by (induction rows arbitrary: tbl) (auto simp: keys_insert)

lemma keyed_insert: "keyed tbl \<Longrightarrow> keyed (insert_on_conflict_do_nothing tbl r)"
  by (auto simp: insert_on_conflict_do_nothing_def keyed_def)

lemma keyed_foldl: "keyed tbl \<Longrightarrow> keyed (foldl insert_on_conflict_do_nothing tbl rows)"
  by (induction rows arbitrary: tbl) (auto simp: keyed_insert)

lemma foldl_insert_present:
  "row_key ` set rows \<subseteq> row_key ` set tbl \<Longrightarrow> foldl insert_on_conflict_do_nothing tbl rows = tbl"
  by (induction rows arbitrary: tbl) (auto simp: insert_on_conflict_do_nothing_def)

lemma foldl_insert_idem:
  "foldl insert_on_conflict_do_nothing (foldl insert_on_conflict_do_nothing tbl rows) rows =
     foldl insert_on_conflict_do_nothing tbl rows"
  by (rule foldl_insert_present) (simp add: keys_foldl)

lemma insert_extends: "\<exists>zs. insert_on_conflict_do_nothing tbl r = tbl @ zs"
  by (simp add: insert_on_conflict_do_nothing_def)

lemma foldl_insert_extends:
  "\<exists>ys. foldl insert_on_conflict_do_nothing tbl rows = tbl @ ys"
proof (induction rows arbitrary: tbl)
  case Nil
  then show ?case by simp
next
  case (Cons r rows)
  obtain zs where zs: "insert_on_conflict_do_nothing tbl r = tbl @ zs"
    using insert_extends by blast
  obtain ys where "foldl insert_on_conflict_do_nothing (insert_on_conflict_do_nothing tbl r) rows
      = insert_on_conflict_do_nothing tbl r @ ys"
    using Cons.IH by blast
  then show ?case
    by (simp add: zs)
qed

lemma py_str_uuid4 [simp]: "py_str (X\<lparr>uuid4 := u\<rparr>) v = py_str X v"
  by (cases v) simp_all

lemma csv_row_uuid4 [simp]: "csv_row (X\<lparr>uuid4 := u\<rparr>) r = csv_row X r"
  by (simp add: csv_row_def)

lemma where_notnull_uuid4 [simp]: "where_notnull (X\<lparr>uuid4 := u\<rparr>) df = where_notnull X df"
  by (auto simp: where_notnull_def where_row_def)

lemma CsvIngestor_run_events:
  "raw_events (committed (snd (CsvIngestor_run X path w))) =
     (case read_csv X path of
        Inl e \<Rightarrow> raw_events (committed w)
      | Inr df \<Rightarrow> foldl insert_on_conflict_do_nothing (raw_events (committed w))
                   (map (csv_row X) (where_notnull X df)))"
  by (simp add: CsvIngestor_run_def Let_def logger_def get_db_connection_def
      execute_batch_def insert_log_def commit_def close_def split: sum.splits)

lemma csv_twice:
  "raw_events (committed (snd (CsvIngestor_run (X\<lparr>uuid4 := u\<rparr>) path (snd (CsvIngestor_run X path w)))))
     = raw_events (committed (snd (CsvIngestor_run X path w)))"
  by (simp add: CsvIngestor_run_events foldl_insert_idem cong: map_cong split: sum.splits)

lemma load_twice_committed:
  "raw_events (committed (snd (load_to_raw X rows rid_b (snd (load_to_raw X rows rid w))))) =
     raw_events (committed (snd (load_to_raw X rows rid w)))"
  by (simp add: load_to_raw_def execute_batch_def commit_def foldl_insert_idem
      split: option.splits refusal.splits)

subsection \<open>What one turn of the loop does\<close>

lemma fetch_events_frame:
  "fetch_events X self cc pg w = (r, w') \<Longrightarrow>
     http_log w' = http_log w @ exchanges w w' \<and> exchanges w w' \<noteq> [] \<and>
     length (exchanges w w') \<le> 3 \<and>
     (\<forall>x\<in>set (exchanges w w'). fst x = page_params self cc pg) \<and>
     (\<forall>x\<in>set (butlast (exchanges w w')). isl (snd x)) \<and>
     (case r of Inr v \<Rightarrow> snd (last (exchanges w w')) = Inr v
              | Inl err \<Rightarrow> \<exists>e. snd (last (exchanges w w')) = Inl e \<and> err = RetryError e) \<and>
     working w' = working w \<and> committed w' = committed w \<and> out w' = out w \<and>
     sql_log w' = sql_log w \<and> aborted w' = aborted w"
  by (auto simp: fetch_events_unfold Let_def exchanges_def split: sum.splits)

text \<open>The two readings of a response body agree with the code's where they apply.\<close>

lemma events_of_page_records:
  "page_records data = Some evs \<Longrightarrow> events_of data = Inr (PList evs)"
  by (auto simp: page_records_def events_of_def dict_get_def
      split: pyval.splits option.splits)

lemma last_page_total_pages:
  "total_pages data = Some t \<Longrightarrow> last_page X data pg = Inr (t - 1 \<le> int pg)"
  by (auto simp: total_pages_def last_page_def dict_get_def
      split: pyval.splits option.splits)

lemma ends_pagination_stops:
  assumes "ends_pagination data pg" "events_of data = Inr events" "truthy events"
  shows "last_page X data pg = Inr True"
proof -
  have "page_records data \<noteq> Some []"
  proof
    assume "page_records data = Some []"
    then have "events_of data = Inr (PList [])"
      by (rule events_of_page_records)
    then show False
      using assms(2,3) by simp
  qed
  then obtain t where "total_pages data = Some t" "t - 1 \<le> int pg"
    using assms(1) by (auto simp: ends_pagination_def split: option.splits)
  then show ?thesis
    by (simp add: last_page_total_pages)
qed

lemma stops_ends_pagination:
  assumes "page_records data = Some evs" "total_pages data = Some t"
    "\<forall>events. events_of data = Inr events \<longrightarrow> truthy events \<longrightarrow> last_page X data pg = Inr True"
  shows "ends_pagination data pg"
proof (cases "evs = []")
  case True
  then show ?thesis using assms(1) by (simp add: ends_pagination_def)
next
  case False
  then have "last_page X data pg = Inr True"
    using assms(1,3) by (simp add: events_of_page_records)
  then show ?thesis
    using assms(2) by (simp add: last_page_total_pages ends_pagination_def)
qed

lemma run_page_exchanges:
  assumes "run_page X self cc rid pg tot w = (r, w')"
    and "fetch_events X self cc pg
           (logger Info (''Fetching page '' @ str_int (int pg) @ '' | country='' @ cc) w) = (fr, w2)"
  shows "exchanges w w' = exchanges w w2" "http_log w' = http_log w2"
  using assms
  by (auto simp: run_page_def exchanges_def logger_def load_to_raw_def execute_batch_def
      commit_def Let_def split: sum.splits if_splits prod.splits option.splits refusal.splits)

lemma run_page_frame:
  assumes "run_page X self cc rid pg tot w = (r, w')"
  shows "http_log w' = http_log w @ exchanges w w' \<and> exchanges w w' \<noteq> [] \<and>
     length (exchanges w w') \<le> 3 \<and>
     (\<forall>x\<in>set (exchanges w w'). fst x = page_params self cc pg) \<and>
     (\<forall>x\<in>set (butlast (exchanges w w')). isl (snd x)) \<and>
     (\<forall>t. r = Inr (Continue t) \<longrightarrow>
        (\<exists>data. snd (last (exchanges w w')) = Inr data \<and> \<not> ends_pagination data pg)) \<and>
     (\<forall>t. r = Inr (Break t) \<longrightarrow>
        (\<exists>data. snd (last (exchanges w w')) = Inr data \<and>
           (page_records data \<noteq> None \<longrightarrow> total_pages data \<noteq> None \<longrightarrow>
              ends_pagination data pg))) \<and>
     (\<forall>e. snd (last (exchanges w w')) = Inl e \<longrightarrow> r = Inl (RetryError e) \<and> aborted w' = aborted w)"
proof -
  let ?w1 = "logger Info (''Fetching page '' @ str_int (int pg) @ '' | country='' @ cc) w"
  obtain fr w2 where f: "fetch_events X self cc pg ?w1 = (fr, w2)"
    by (cases "fetch_events X self cc pg ?w1")
  note fr = fetch_events_frame [OF f]
  have ex: "exchanges w w2 = exchanges ?w1 w2"
    by (simp add: exchanges_def logger_def)
  have w1: "http_log ?w1 = http_log w" "aborted ?w1 = aborted w"
    by (simp_all add: logger_def)
  note same = run_page_exchanges [OF assms f]
  have http: "http_log w' = http_log w @ exchanges w w' \<and> exchanges w w' \<noteq> [] \<and>
     length (exchanges w w') \<le> 3 \<and>
     (\<forall>x\<in>set (exchanges w w'). fst x = page_params self cc pg) \<and>
     (\<forall>x\<in>set (butlast (exchanges w w')). isl (snd x))"
    using fr unfolding same ex w1 by blast
  have resp: "case fr of Inr v \<Rightarrow> snd (last (exchanges w w')) = Inr v
              | Inl err \<Rightarrow> \<exists>e. snd (last (exchanges w w')) = Inl e \<and> err = RetryError e"
    using fr unfolding same ex by blast
  have ab2: "aborted w2 = aborted w"
    using fr w1 by simp
  have cont: "\<exists>data. snd (last (exchanges w w')) = Inr data \<and> \<not> ends_pagination data pg"
    if c: "r = Inr (Continue t)" for t
  proof -
    obtain data events where d: "fr = Inr data" "events_of data = Inr events" "truthy events"
      "last_page X data pg = Inr False"
      using assms f c
      by (auto simp: run_page_def Let_def split: sum.splits if_splits prod.splits)
    have "\<not> ends_pagination data pg"
      using ends_pagination_stops [OF _ d(2,3), of pg X] d(4) by auto
    then show ?thesis
      using resp d(1) by simp
  qed
  have brk: "\<exists>data. snd (last (exchanges w w')) = Inr data \<and>
      (page_records data \<noteq> None \<longrightarrow> total_pages data \<noteq> None \<longrightarrow> ends_pagination data pg)"
    if c: "r = Inr (Break t)" for t
  proof -
    obtain data where d: "fr = Inr data"
      "\<forall>events. events_of data = Inr events \<longrightarrow> truthy events \<longrightarrow> last_page X data pg = Inr True"
      using assms f c
      by (auto simp: run_page_def Let_def split: sum.splits if_splits prod.splits)
    have "page_records data \<noteq> None \<longrightarrow> total_pages data \<noteq> None \<longrightarrow> ends_pagination data pg"
      using stops_ends_pagination [OF _ _ d(2)] by auto
    then show ?thesis
      using resp d(1) by simp
  qed
  have fail: "r = Inl (RetryError e) \<and> aborted w' = aborted w"
    if "snd (last (exchanges w w')) = Inl e" for e
  proof -
    have "fr = Inl (RetryError e)"
      using resp that by (cases fr) auto
    then show ?thesis
      using assms f ab2 by (simp add: run_page_def)
  qed
  show ?thesis
    using http cont brk fail by blast
qed

text \<open>What one turn does to the database, on a connection in order.\<close>

lemma run_page_db:
  assumes "run_page X self cc rid pg tot w = (r, w')" "\<not> aborted w"
  shows "(\<exists>extra. working w' = (working w)\<lparr>raw_events :=
            foldl insert_on_conflict_do_nothing (raw_events (working w)) extra\<rparr> \<and>
          (response_rows X (snd (last (exchanges w w'))) \<noteq> [] \<longrightarrow>
             extra = response_rows X (snd (last (exchanges w w'))))) \<and>
     committed w' = (if response_rows X (snd (last (exchanges w w'))) = [] then committed w
                     else working w') \<and>
     (\<forall>data. snd (last (exchanges w w')) = Inr data \<longrightarrow>
        (case page_error X data pg of
           Some (e, ab) \<Rightarrow> r = Inl e \<and> aborted w' = ab
         | None \<Rightarrow> \<not> isl r \<and> \<not> aborted w'))"
proof -
  let ?w1 = "logger Info (''Fetching page '' @ str_int (int pg) @ '' | country='' @ cc) w"
  obtain fr w2 where f: "fetch_events X self cc pg ?w1 = (fr, w2)"
    by (cases "fetch_events X self cc pg ?w1")
  note fr = fetch_events_frame [OF f]
  have ex: "exchanges w w2 = exchanges ?w1 w2"
    by (simp add: exchanges_def logger_def)
  note same = run_page_exchanges [OF assms(1) f]
  have w2: "working w2 = working w" "committed w2 = committed w" "\<not> aborted w2"
    using fr assms(2) by (simp_all add: logger_def)
  have resp: "case fr of Inr v \<Rightarrow> snd (last (exchanges w w')) = Inr v
              | Inl err \<Rightarrow> \<exists>e. snd (last (exchanges w w')) = Inl e \<and> err = RetryError e"
    using fr unfolding same ex by blast
  have nil: "foldl insert_on_conflict_do_nothing tbl [] = tbl" for tbl :: "row list"
    by simp
  show ?thesis
  proof (cases fr)
    case (Inl err)
    then have "w' = w2" "response_rows X (snd (last (exchanges w w'))) = []"
      using assms(1) f resp by (auto simp: run_page_def response_rows_def)
    then show ?thesis
      using w2 resp Inl by (auto intro: exI [of _ "[]"])
  next
    case (Inr data)
    then have last: "snd (last (exchanges w w')) = Inr data"
      using resp by simp
    show ?thesis
      unfolding last
      using assms(1) f Inr w2
      apply (simp add: run_page_def response_rows_def loaded_rows_def page_error_def Let_def
          load_to_raw_def
          split: sum.splits if_splits prod.splits option.splits refusal.splits)
      apply (auto simp: logger_def execute_batch_def commit_def intro: exI [of _ "[]"])
      done
  qed
qed

subsection \<open>What the loop does to the HTTP exchanges\<close>

lemma sorted_map_const: "\<forall>x\<in>set xs. f x = c \<Longrightarrow> sorted (map f xs)"
  by (induction xs) auto

lemma paged_Nil: "paged self cc pg 0 []"
  by (simp add: paged_def)

lemma paged_block:
  assumes "block \<noteq> []" "length block \<le> 3"
    "\<forall>x\<in>set block. fst x = page_params self cc pg"
    "\<forall>x\<in>set (butlast block). isl (snd x)"
  shows "paged self cc pg 1 block"
proof -
  have pages: "\<forall>x\<in>set block. (page \<circ> fst) x = pg"
    using assms(3) by (simp add: page_params_def)
  have "(page \<circ> fst) ` set block = {pg}"
    using pages assms(1) by (cases block) auto
  moreover have "sorted (map (page \<circ> fst) block)"
    using pages by (rule sorted_map_const)
  ultimately show ?thesis
    using assms by (auto simp: paged_def page_params_def)
qed

lemma paged_append:
  assumes "block \<noteq> []" "length block \<le> 3"
    "\<forall>x\<in>set block. fst x = page_params self cc pg"
    "\<forall>x\<in>set (butlast block). isl (snd x)"
    "snd (last block) = Inr data" "\<not> ends_pagination data pg"
    "paged self cc (Suc pg) k rest"
  shows "paged self cc pg (Suc k) (block @ rest)"
proof -
  have pages: "\<forall>x\<in>set block. (page \<circ> fst) x = pg"
    using assms(3) by (simp add: page_params_def)
  have img: "(page \<circ> fst) ` set block = {pg}"
    using pages assms(1) by (cases block) auto
  have rest_pages: "(page \<circ> fst) ` set rest = {Suc pg..<Suc pg + k}"
    using assms(7) by (simp add: paged_def)
  have srt: "sorted (map (page \<circ> fst) (block @ rest))"
  proof -
    have "\<forall>x\<in>set block. \<forall>y\<in>set rest. (page \<circ> fst) x \<le> (page \<circ> fst) y"
    proof (intro ballI)
      fix x y assume "x \<in> set block" "y \<in> set rest"
      then have "(page \<circ> fst) x = pg" "(page \<circ> fst) y \<in> {Suc pg..<Suc pg + k}"
        using pages rest_pages by auto
      then show "(page \<circ> fst) x \<le> (page \<circ> fst) y" by simp
    qed
    moreover have "sorted (map (page \<circ> fst) block)"
      using pages by (rule sorted_map_const)
    moreover have "sorted (map (page \<circ> fst) rest)"
      using assms(7) by (simp add: paged_def)
    ultimately show ?thesis
      by (auto simp: sorted_append)
  qed
  have set_eq: "(page \<circ> fst) ` set (block @ rest) = {pg..<pg + Suc k}"
    using img rest_pages by (auto simp: image_Un)
  have len: "length (block @ rest) \<le> 3 * Suc k"
    using assms(2,7) by (simp add: paged_def)
  have params: "\<forall>x\<in>set (block @ rest). fst x = page_params self cc (page (fst x))"
    using assms(3,7) by (auto simp: paged_def page_params_def)
  have last_block: "\<forall>x\<in>set block. \<forall>d. snd x = Inr d \<longrightarrow> \<not> ends_pagination d (page (fst x))"
  proof (intro ballI allI impI)
    fix x d assume x: "x \<in> set block" and d: "snd x = Inr d"
    have "block = butlast block @ [last block]"
      using assms(1) by simp
    then have "x \<in> set (butlast block) \<or> x = last block"
      using x by (metis Un_iff empty_iff empty_set set_ConsD set_append)
    then have "x = last block"
      using assms(4) d by auto
    then show "\<not> ends_pagination d (page (fst x))"
      using assms(3,5,6) d x by (simp add: page_params_def)
  qed
  have stops: "\<forall>x\<in>set (butlast (block @ rest)). \<forall>d. snd x = Inr d \<longrightarrow>
      \<not> ends_pagination d (page (fst x))"
  proof (cases "rest = []")
    case True
    then show ?thesis
      using last_block by (auto dest: in_set_butlastD)
  next
    case False
    then have "butlast (block @ rest) = block @ butlast rest"
      by (simp add: butlast_append)
    then show ?thesis
      using last_block assms(7) by (auto simp: paged_def)
  qed
  show ?thesis
    unfolding paged_def using srt set_eq len params stops by blast
qed

lemma exchanges_self [simp]: "exchanges w w = []"
  by (simp add: exchanges_def)

lemma exchanges_append:
  "http_log w1 = http_log w @ exchanges w w1 \<Longrightarrow> http_log w2 = http_log w1 @ exchanges w1 w2 \<Longrightarrow>
     http_log w2 = http_log w @ exchanges w w2 \<and> exchanges w w2 = exchanges w w1 @ exchanges w1 w2"
  by (metis append.assoc append_eq_conv_conj exchanges_def)

lemma paged_nonempty: "paged self cc pg k new \<Longrightarrow> 1 \<le> k \<Longrightarrow> new \<noteq> []"
  by (auto simp: paged_def)

lemma paged_last_page:
  assumes "paged self cc pg k new" "1 \<le> k"
  shows "page (fst (last new)) = pg + k - 1"
proof -
  have ne: "new \<noteq> []"
    using assms by (rule paged_nonempty)
  have srt: "sorted (map (page \<circ> fst) new)" and img: "(page \<circ> fst) ` set new = {pg..<pg + k}"
    using assms(1) by (simp_all add: paged_def)
  have "pg + k - 1 \<in> (page \<circ> fst) ` set new"
    using img assms(2) by simp
  then obtain y where y: "y \<in> set new" "page (fst y) = pg + k - 1"
    by auto
  have "new = butlast new @ [last new]"
    using ne by simp
  then have "sorted (map (page \<circ> fst) (butlast new) @ [(page \<circ> fst) (last new)])"
    using srt by (metis list.simps(8,9) map_append)
  then have "\<forall>x\<in>set (butlast new). (page \<circ> fst) x \<le> (page \<circ> fst) (last new)"
    by (simp add: sorted_append)
  moreover have "y \<in> set (butlast new) \<or> y = last new"
    using y(1) \<open>new = butlast new @ [last new]\<close>
    by (metis Un_iff empty_iff empty_set set_ConsD set_append)
  ultimately have "pg + k - 1 \<le> page (fst (last new))"
    using y(2) by auto
  moreover have "(page \<circ> fst) (last new) \<in> {pg..<pg + k}"
    using img ne by (metis imageI last_in_set)
  ultimately show ?thesis
    by auto
qed

text \<open>
  The loop, from page \<open>pg\<close> on, requests the pages \<open>pg, ..., pg + k - 1\<close>: at most the pages
  below \<open>mp\<close>, at least one if there is one, and fewer than all of them only if it raises,
  or if the last response is a body that, when it has the documented shape, ends the
  pagination. A failed last exchange makes the loop raise \<open>RetryError\<close>.
\<close>

lemma run_pages_paged:
  "run_pages X self cc rid mp pg tot w = (r, w') \<Longrightarrow>
     http_log w' = http_log w @ exchanges w w' \<and>
     (\<exists>k. int (pg + k) \<le> max mp (int pg) \<and> (int pg < mp \<longrightarrow> 1 \<le> k) \<and>
          paged self cc pg k (exchanges w w') \<and>
          (int (pg + k) < mp \<longrightarrow> \<not> isl r \<longrightarrow>
             (\<exists>data. snd (last (exchanges w w')) = Inr data \<and>
                (page_records data \<noteq> None \<longrightarrow> total_pages data \<noteq> None \<longrightarrow>
                   ends_pagination data (pg + k - 1)))))"
proof (induction X self cc rid mp pg tot w arbitrary: r w' rule: run_pages.induct)
  case (1 X self cc rid mp pg tot w)
  show ?case
  proof (cases "mp \<le> int pg")
    case True
    then have "w' = w"
      using "1.prems" by (simp add: run_pages.simps [of _ _ _ _ mp pg])
    then show ?thesis
      using paged_Nil [of self cc pg] True by (intro conjI exI [of _ 0]) simp_all
  next
    case False
    obtain r1 w1 where step: "run_page X self cc rid pg tot w = (r1, w1)"
      by (cases "run_page X self cc rid pg tot w")
    note fr = run_page_frame [OF step]
    have blk: "paged self cc pg 1 (exchanges w w1)"
      using fr by (intro paged_block) simp_all
    show ?thesis
    proof (cases "\<exists>t. r1 = Inr (Continue t)")
      case True
      then obtain t where t: "r1 = Inr (Continue t)" by blast
      have rec: "run_pages X self cc rid mp (pg + 1) t w1 = (r, w')"
        using "1.prems" False step t by (simp add: run_pages.simps [of _ _ _ _ mp pg])
      from "1.IH" [OF False step [symmetric] t refl rec]
      obtain k where ih: "http_log w' = http_log w1 @ exchanges w1 w'"
        "int (pg + 1 + k) \<le> max mp (int (pg + 1))" "int (pg + 1) < mp \<longrightarrow> 1 \<le> k"
        "paged self cc (pg + 1) k (exchanges w1 w')"
        "int (pg + 1 + k) < mp \<longrightarrow> \<not> isl r \<longrightarrow>
           (\<exists>data. snd (last (exchanges w1 w')) = Inr data \<and>
              (page_records data \<noteq> None \<longrightarrow> total_pages data \<noteq> None \<longrightarrow>
                 ends_pagination data (pg + 1 + k - 1)))"
        by blast
      from fr t obtain data where data: "snd (last (exchanges w w1)) = Inr data"
        "\<not> ends_pagination data pg"
        by blast
      have h1: "http_log w1 = http_log w @ exchanges w w1"
        using fr by (rule conjunct1)
      have app: "http_log w' = http_log w @ exchanges w w'"
        "exchanges w w' = exchanges w w1 @ exchanges w1 w'"
        using exchanges_append [OF h1 ih(1)] by blast+
      have "paged self cc pg (Suc k) (exchanges w w1 @ exchanges w1 w')"
        using fr data ih(4) by (intro paged_append [where data = data]) simp_all
      moreover have "int (pg + Suc k) \<le> max mp (int pg)"
        using ih(2) \<open>\<not> mp \<le> int pg\<close> by simp
      moreover have "\<exists>d. snd (last (exchanges w w1 @ exchanges w1 w')) = Inr d \<and>
          (page_records d \<noteq> None \<longrightarrow> total_pages d \<noteq> None \<longrightarrow>
             ends_pagination d (pg + Suc k - 1))"
        if less: "int (pg + Suc k) < mp" and ok: "\<not> isl r"
      proof -
        have "1 \<le> k"
          using ih(3) less by simp
        then have "exchanges w1 w' \<noteq> []"
          using ih(4) by (rule paged_nonempty [rotated])
        then have "last (exchanges w w1 @ exchanges w1 w') = last (exchanges w1 w')"
          by simp
        then show ?thesis
          using ih(5) less ok by simp
      qed
      ultimately show ?thesis
        unfolding app(2) [symmetric] using app(1)
        by (intro conjI exI [of _ "Suc k"]) (simp_all add: app(2))
    next
      case no: False
      then have w': "w' = w1" and r: "r = (case r1 of Inl e \<Rightarrow> Inl e | Inr tn \<Rightarrow>
          (case tn of Break t \<Rightarrow> Inr t | Continue t \<Rightarrow> Inr t))"
        using "1.prems" \<open>\<not> mp \<le> int pg\<close> step
        by (cases r1; cases "projr r1"; auto simp: run_pages.simps [of _ _ _ _ mp pg])+
      have "\<exists>data. snd (last (exchanges w w1)) = Inr data \<and>
          (page_records data \<noteq> None \<longrightarrow> total_pages data \<noteq> None \<longrightarrow> ends_pagination data pg)"
        if ok: "\<not> isl r"
      proof -
        obtain t where "r1 = Inr (Break t)"
          using ok r no by (cases r1; cases "projr r1") auto
        then show ?thesis
          using fr by blast
      qed
      then show ?thesis
        using blk fr \<open>\<not> mp \<le> int pg\<close> unfolding w'
        by (intro conjI exI [of _ 1]) auto
    qed
  qed
qed

subsection \<open>What the loop does to the database\<close>

lemma foldl_insert_prefix: "prefix tbl (foldl insert_on_conflict_do_nothing tbl rows)"
  using foldl_insert_extends [of tbl rows] by (auto simp: prefix_def)

lemma db_grows_refl: "db_grows X w w"
  by (simp add: db_grows_def)

lemma db_grows_trans:
  assumes "db_grows X w w1" "db_grows X w1 w2"
  shows "db_grows X w w2"
proof -
  have h: "http_log w1 = http_log w @ exchanges w w1" "http_log w2 = http_log w1 @ exchanges w1 w2"
    using assms by (simp_all add: db_grows_def)
  note app = exchanges_append [OF h]
  have "prefix (raw_events (working w)) (raw_events (working w2))"
    using assms by (auto simp: db_grows_def intro: prefix_order.trans)
  moreover have "synced w2 \<and> prefix (raw_events (committed w)) (raw_events (committed w2)) \<and>
      (\<forall>x\<in>set (exchanges w w2).
         row_key ` set (response_rows X (snd x)) \<subseteq> row_key ` set (raw_events (committed w2)))"
    if s: "synced w"
  proof -
    have s1: "synced w1" "prefix (raw_events (committed w)) (raw_events (committed w1))"
      and r1: "\<forall>x\<in>set (exchanges w w1).
         row_key ` set (response_rows X (snd x)) \<subseteq> row_key ` set (raw_events (committed w1))"
      using assms(1) s by (simp_all add: db_grows_def)
    have s2: "synced w2" "prefix (raw_events (committed w1)) (raw_events (committed w2))"
      and r2: "\<forall>x\<in>set (exchanges w1 w2).
         row_key ` set (response_rows X (snd x)) \<subseteq> row_key ` set (raw_events (committed w2))"
      using assms(2) s1(1) by (simp_all add: db_grows_def)
    have keys: "row_key ` set (raw_events (committed w1)) \<subseteq> row_key ` set (raw_events (committed w2))"
      using s2(2) by (auto dest: set_mono_prefix)
    have "\<forall>x\<in>set (exchanges w w2).
        row_key ` set (response_rows X (snd x)) \<subseteq> row_key ` set (raw_events (committed w2))"
    proof
      fix x assume "x \<in> set (exchanges w w2)"
      then consider "x \<in> set (exchanges w w1)" | "x \<in> set (exchanges w1 w2)"
        using app by auto
      then show "row_key ` set (response_rows X (snd x)) \<subseteq> row_key ` set (raw_events (committed w2))"
      proof cases
        case 1
        then have "row_key ` set (response_rows X (snd x)) \<subseteq> row_key ` set (raw_events (committed w1))"
          using r1 by blast
        then show ?thesis using keys by blast
      next
        case 2
        then show ?thesis using r2 by blast
      qed
    qed
    moreover have "prefix (raw_events (committed w)) (raw_events (committed w2))"
      using s1(2) s2(2) by (rule prefix_order.trans)
    ultimately show ?thesis
      using s2(1) by blast
  qed
  ultimately show ?thesis
    using assms app(1) by (simp add: db_grows_def)
qed

lemma run_page_db_grows:
  assumes "run_page X self cc rid pg tot w = (r1, w1)" "\<not> aborted w"
  shows "db_grows X w w1"
proof -
  note fr = run_page_frame [OF assms(1)]
  note db = run_page_db [OF assms]
  let ?rows = "response_rows X (snd (last (exchanges w w1)))"
  obtain extra where wk: "working w1 = (working w)\<lparr>raw_events :=
      foldl insert_on_conflict_do_nothing (raw_events (working w)) extra\<rparr>"
    and extra: "?rows \<noteq> [] \<longrightarrow> extra = ?rows"
    using db by blast
  have cm: "committed w1 = (if ?rows = [] then committed w else working w1)"
    using db by blast
  have ne: "exchanges w w1 \<noteq> []" and isl: "\<forall>x\<in>set (butlast (exchanges w w1)). isl (snd x)"
    using fr by blast+
  have rows: "\<forall>x\<in>set (exchanges w w1).
      row_key ` set (response_rows X (snd x)) \<subseteq> row_key ` set (raw_events (committed w1))"
  proof
    fix x assume x: "x \<in> set (exchanges w w1)"
    have "exchanges w w1 = butlast (exchanges w w1) @ [last (exchanges w w1)]"
      using ne by simp
    then have "x \<in> set (butlast (exchanges w w1)) \<or> x = last (exchanges w w1)"
      using x by (metis Un_iff empty_iff empty_set set_ConsD set_append)
    then show "row_key ` set (response_rows X (snd x)) \<subseteq> row_key ` set (raw_events (committed w1))"
    proof
      assume "x \<in> set (butlast (exchanges w w1))"
      then have "isl (snd x)" using isl by blast
      then show ?thesis by (cases "snd x") (simp_all add: response_rows_def)
    next
      assume last: "x = last (exchanges w w1)"
      show ?thesis
      proof (cases "?rows = []")
        case True
        then show ?thesis using last by simp
      next
        case False
        then show ?thesis
          using last extra by (simp add: cm wk keys_foldl)
      qed
    qed
  qed
  have pre: "prefix (raw_events (working w)) (raw_events (working w1))"
    by (simp add: wk foldl_insert_prefix)
  have sync: "synced w1 \<and> prefix (raw_events (committed w)) (raw_events (committed w1))"
    if s: "synced w"
  proof (cases "?rows = []")
    case True
    then have "committed w1 = committed w"
      by (simp add: cm)
    moreover have "prefix (raw_events (committed w)) (raw_events (working w1))"
      using s pre by (auto simp: synced_def intro: prefix_order.trans)
    ultimately show ?thesis
      using s by (simp add: synced_def wk)
  next
    case False
    then have "committed w1 = working w1"
      by (simp add: cm)
    moreover have "prefix (raw_events (committed w)) (raw_events (working w1))"
      using s pre by (auto simp: synced_def intro: prefix_order.trans)
    ultimately show ?thesis
      by (simp add: synced_def)
  qed
  have "http_log w1 = http_log w @ exchanges w w1"
    using fr by (rule conjunct1)
  then show ?thesis
    using rows sync pre by (simp add: db_grows_def wk keyed_foldl)
qed

lemma run_page_outcome:
  assumes "run_page X self cc rid pg tot w = (r1, w1)" "\<not> aborted w"
  shows "case run_outcome X (exchanges w w1) of
           Some (e, ab) \<Rightarrow> r1 = Inl e \<and> aborted w1 = ab
         | None \<Rightarrow> \<not> isl r1 \<and> \<not> aborted w1"
proof -
  note fr = run_page_frame [OF assms(1)]
  note db = run_page_db [OF assms]
  have ne: "exchanges w w1 \<noteq> []"
    using fr by blast
  then have "fst (last (exchanges w w1)) = page_params self cc pg"
    using fr by (meson last_in_set)
  then have pg: "page (fst (last (exchanges w w1))) = pg"
    by (simp add: page_params_def)
  show ?thesis
  proof (cases "snd (last (exchanges w w1))")
    case (Inl e)
    then have "r1 = Inl (RetryError e) \<and> aborted w1 = aborted w"
      using fr by blast
    then show ?thesis
      using ne Inl assms(2) by (simp add: run_outcome_def)
  next
    case (Inr data)
    then have "case page_error X data pg of
           Some (e, ab) \<Rightarrow> r1 = Inl e \<and> aborted w1 = ab
         | None \<Rightarrow> \<not> isl r1 \<and> \<not> aborted w1"
      using db by blast
    then show ?thesis
      using ne Inr pg by (simp add: run_outcome_def)
  qed
qed

lemma run_pages_db_grows:
  "run_pages X self cc rid mp pg tot w = (r, w') \<Longrightarrow> \<not> aborted w \<Longrightarrow>
     db_grows X w w' \<and>
     (case run_outcome X (exchanges w w') of
        Some (e, ab) \<Rightarrow> r = Inl e \<and> aborted w' = ab
      | None \<Rightarrow> \<not> isl r \<and> \<not> aborted w')"
proof (induction X self cc rid mp pg tot w arbitrary: r w' rule: run_pages.induct)
  case (1 X self cc rid mp pg tot w)
  show ?case
  proof (cases "mp \<le> int pg")
    case True
    then have "w' = w" "r = Inr tot"
      using "1.prems" by (simp_all add: run_pages.simps [of _ _ _ _ mp pg])
    then show ?thesis
      using "1.prems"(2) by (simp add: db_grows_refl run_outcome_def)
  next
    case False
    obtain r1 w1 where step: "run_page X self cc rid pg tot w = (r1, w1)"
      by (cases "run_page X self cc rid pg tot w")
    note g1 = run_page_db_grows [OF step "1.prems"(2)]
    note o1 = run_page_outcome [OF step "1.prems"(2)]
    show ?thesis
    proof (cases "\<exists>t. r1 = Inr (Continue t)")
      case True
      then obtain t where t: "r1 = Inr (Continue t)" by blast
      have rec: "run_pages X self cc rid mp (pg + 1) t w1 = (r, w')"
        using "1.prems" False step t by (simp add: run_pages.simps [of _ _ _ _ mp pg])
      have none1: "run_outcome X (exchanges w w1) = None" and ok1: "\<not> aborted w1"
        using o1 t by (auto split: option.splits)
      from "1.IH" [OF False step [symmetric] t refl rec ok1]
      have g2: "db_grows X w1 w'"
        and o2: "case run_outcome X (exchanges w1 w') of
                   Some (e, ab) \<Rightarrow> r = Inl e \<and> aborted w' = ab
                 | None \<Rightarrow> \<not> isl r \<and> \<not> aborted w'"
        by blast+
      have h: "http_log w1 = http_log w @ exchanges w w1"
        "http_log w' = http_log w1 @ exchanges w1 w'"
        using g1 g2 by (simp_all add: db_grows_def)
      have app: "exchanges w w' = exchanges w w1 @ exchanges w1 w'"
        using exchanges_append [OF h] by blast
      have "run_outcome X (exchanges w w') = run_outcome X (exchanges w1 w')"
      proof (cases "exchanges w1 w' = []")
        case True
        then show ?thesis
          using none1 by (simp add: app run_outcome_def)
      next
        case False
        then have "last (exchanges w w1 @ exchanges w1 w') = last (exchanges w1 w')"
          by simp
        then show ?thesis
          using False by (simp add: app run_outcome_def split: sum.splits)
      qed
      then show ?thesis
        using o2 db_grows_trans [OF g1 g2] by simp
    next
      case no: False
      then have w': "w' = w1" and r: "r = (case r1 of Inl e \<Rightarrow> Inl e | Inr tn \<Rightarrow>
          (case tn of Break t \<Rightarrow> Inr t | Continue t \<Rightarrow> Inr t))"
        using "1.prems" False step
        by (cases r1; cases "projr r1"; auto simp: run_pages.simps [of _ _ _ _ mp pg])+
      have "case run_outcome X (exchanges w w1) of
              Some (e, ab) \<Rightarrow> r = Inl e \<and> aborted w1 = ab
            | None \<Rightarrow> \<not> isl r \<and> \<not> aborted w1"
        using o1 unfolding r
        by (cases r1; cases "projr r1") (auto split: option.splits)
      then show ?thesis
        using g1 unfolding w' by simp
    qed
  qed
qed

subsection \<open>The API run\<close>

lemma start_world:
  "http_log (commit (insert_log rec (get_db_connection w))) = http_log w"
  "working (commit (insert_log rec (get_db_connection w))) =
     (committed w)\<lparr>ingestion_log := ingestion_log (committed w) @ [rec]\<rparr>"
  "committed (commit (insert_log rec (get_db_connection w))) =
     (committed w)\<lparr>ingestion_log := ingestion_log (committed w) @ [rec]\<rparr>"
  "\<not> aborted (commit (insert_log rec (get_db_connection w)))"
  "synced (commit (insert_log rec (get_db_connection w)))"
  by (simp_all add: commit_def insert_log_def get_db_connection_def synced_def)

text \<open>
  The run in terms of its loop. If the loop leaves the transaction aborted, the update of
  the handler raises in its turn: that exception is the result and nothing more is
  committed. Otherwise the record of the run is updated and committed, to success with
  the total or to failed with the text of the exception, and the result is that of the
  loop.
\<close>

lemma TicketmasterIngestor_run_loop:
  fixes X :: "'r ext"
  defines "rid \<equiv> uuid4 X"
  assumes "run_pages X self cc rid mp 0 0
             (commit (insert_log (running_record rid) (get_db_connection w))) = (r, w2)"
    and "isl r \<or> \<not> aborted w2"
  shows "fst (TicketmasterIngestor_run X self cc mp w) =
           (if aborted w2 then Inl in_failed_transaction else r)"
    and "http_log (snd (TicketmasterIngestor_run X self cc mp w)) = http_log w2"
    and "clock (snd (TicketmasterIngestor_run X self cc mp w)) = clock w2"
    and "working (snd (TicketmasterIngestor_run X self cc mp w)) =
           committed (snd (TicketmasterIngestor_run X self cc mp w))"
    and "committed (snd (TicketmasterIngestor_run X self cc mp w)) =
           (if aborted w2 then committed w2
            else (working w2)\<lparr>ingestion_log :=
              map (\<lambda>rec. if run_id rec = rid
                     then (case r of
                             Inr total_loaded \<Rightarrow>
                               rec\<lparr>finished_at := Some (clock w2),
                                   records_loaded := Some total_loaded,
                                   log_status := ''success''\<rparr>
                           | Inl e \<Rightarrow>
                               rec\<lparr>finished_at := Some (clock w2), log_status := ''failed'',
                                   error_message := Some (exc_str X e)\<rparr>)
                     else rec)
                (ingestion_log (working w2))\<rparr>)"
  using assms
  by (cases r; cases "aborted w2";
      simp add: TicketmasterIngestor_run_def run_try_def Let_def commit_def close_def
        update_log_def logger_def cong: map_cong)+

text \<open>
  Claim C4. For every region code and every \<open>max_pages\<close>, the HTTP exchanges of an API run
  are a pagination from page 0. The page indices requested never decrease and are exactly
  \<open>0, ..., k - 1\<close> for some \<open>k\<close> that is at most \<open>max_pages\<close> (at most 0 when \<open>max_pages\<close>
  is not positive), and at least 1 when \<open>max_pages\<close> is: at most \<open>max_pages\<close> pages are
  requested, in ascending order, starting with page 0. A page is requested at most three
  times (the retries of one fetch), always with the parameters built for it. A response
  that ends the pagination (it has zero records, or its page index has reached the last
  page the server reports, \<open>index >= totalPages - 1\<close>) is the last exchange of the run: no
  request follows it. And the run does not stop for another reason: if it returns having
  requested fewer than \<open>max_pages\<close> pages, its last exchange is a response which, when it
  has the documented shape (a list of records and a number of pages), ends the
  pagination.
\<close>

theorem api_run_pagination:
  "(let res = TicketmasterIngestor_run X self cc max_pages w;
        new = exchanges w (snd res)
    in \<exists>k. int k \<le> max 0 max_pages \<and>
         (1 \<le> max_pages \<longrightarrow> 1 \<le> k) \<and>
         sorted (map (page \<circ> fst) new) \<and>
         (page \<circ> fst) ` set new = {0..<k} \<and>
         length new \<le> 3 * k \<and>
         (\<forall>x\<in>set new. fst x = page_params self cc (page (fst x))) \<and>
         (\<forall>x\<in>set (butlast new). \<forall>data. snd x = Inr data \<longrightarrow>
            \<not> ends_pagination data (page (fst x))) \<and>
         (int k < max_pages \<longrightarrow> \<not> isl (fst res) \<longrightarrow>
            (\<exists>data. snd (last new) = Inr data \<and>
               (page_records data \<noteq> None \<longrightarrow> total_pages data \<noteq> None \<longrightarrow>
                  ends_pagination data (k - 1)))))"
proof -
  let ?w1 = "commit (insert_log (running_record (uuid4 X)) (get_db_connection w))"
  let ?res = "TicketmasterIngestor_run X self cc max_pages w"
  obtain r w2 where loop: "run_pages X self cc (uuid4 X) max_pages 0 0 ?w1 = (r, w2)"
    by (cases "run_pages X self cc (uuid4 X) max_pages 0 0 ?w1")
  have "case run_outcome X (exchanges ?w1 w2) of
          Some (e, ab) \<Rightarrow> r = Inl e \<and> aborted w2 = ab
        | None \<Rightarrow> \<not> isl r \<and> \<not> aborted w2"
    using run_pages_db_grows [OF loop start_world(4)] by blast
  then have ab: "isl r \<or> \<not> aborted w2"
    by (auto split: option.splits)
  note run = TicketmasterIngestor_run_loop [OF loop ab]
  from run_pages_paged [OF loop]
  obtain k where k: "int (0 + k) \<le> max max_pages (int 0)" "int 0 < max_pages \<longrightarrow> 1 \<le> k"
    "paged self cc 0 k (exchanges ?w1 w2)"
    "int (0 + k) < max_pages \<longrightarrow> \<not> isl r \<longrightarrow>
       (\<exists>data. snd (last (exchanges ?w1 w2)) = Inr data \<and>
          (page_records data \<noteq> None \<longrightarrow> total_pages data \<noteq> None \<longrightarrow>
             ends_pagination data (0 + k - 1)))"
    by blast
  have ex: "exchanges w (snd ?res) = exchanges ?w1 w2"
    by (simp add: exchanges_def run(2) start_world)
  have ok: "\<not> isl (fst ?res) \<Longrightarrow> \<not> isl r"
    by (simp add: run(1) split: if_splits)
  have "int k \<le> max 0 max_pages" "1 \<le> max_pages \<longrightarrow> 1 \<le> k"
    using k(1,2) by (simp_all add: max.commute)
  moreover have "sorted (map (page \<circ> fst) (exchanges ?w1 w2))"
    "(page \<circ> fst) ` set (exchanges ?w1 w2) = {0..<k}"
    "length (exchanges ?w1 w2) \<le> 3 * k"
    "\<forall>x\<in>set (exchanges ?w1 w2). fst x = page_params self cc (page (fst x))"
    "\<forall>x\<in>set (butlast (exchanges ?w1 w2)). \<forall>data. snd x = Inr data \<longrightarrow>
       \<not> ends_pagination data (page (fst x))"
    using k(3) by (simp_all add: paged_def)
  moreover have "int k < max_pages \<longrightarrow> \<not> isl (fst ?res) \<longrightarrow>
      (\<exists>data. snd (last (exchanges ?w1 w2)) = Inr data \<and>
         (page_records data \<noteq> None \<longrightarrow> total_pages data \<noteq> None \<longrightarrow>
            ends_pagination data (k - 1)))"
    using k(4) ok by simp
  ultimately show ?thesis
    unfolding Let_def ex by (intro exI [of _ k] conjI)
qed

text \<open>
  A server with events on pages 0 and 1 and none on page 2, asked for up to five pages:
  pages 0, 1 (twice, after a timeout) and 2 are requested, and the empty page 2 ends the
  run. A server that reports two pages and has events on every page, asked for up to five:
  pages 0 and 1 are requested, and page 1, the last one reported, ends the run. The first
  server asked for one page: page 0 is requested and nothing else.
\<close>

theorem api_run_pagination_witness:
  "map (page \<circ> fst)
     (exchanges world0 (snd (TicketmasterIngestor_run paging_ext demo_ingestor ''DE'' 5 world0)))
     = [0, 1, 1, 2] \<and>
   map (isl \<circ> snd)
     (exchanges world0 (snd (TicketmasterIngestor_run paging_ext demo_ingestor ''DE'' 5 world0)))
     = [False, True, False, False] \<and>
   \<not> ends_pagination page_body 0 \<and> \<not> ends_pagination page_body 1 \<and>
   ends_pagination (PDict []) 2 \<and>
   map (page \<circ> fst)
     (exchanges world0 (snd (TicketmasterIngestor_run two_page_ext demo_ingestor ''DE'' 5 world0)))
     = [0, 1] \<and>
   fst (TicketmasterIngestor_run two_page_ext demo_ingestor ''DE'' 5 world0) = Inr 2 \<and>
   \<not> ends_pagination two_page_body 0 \<and> ends_pagination two_page_body 1 \<and>
   map (page \<circ> fst)
     (exchanges world0 (snd (TicketmasterIngestor_run paging_ext demo_ingestor ''DE'' 1 world0)))
     = [0] \<and>
   (\<exists>k. int k \<le> 5 \<and> 1 \<le> k \<and>
      (page \<circ> fst) ` set (exchanges world0
         (snd (TicketmasterIngestor_run paging_ext demo_ingestor ''DE'' 5 world0))) = {0..<k})"
proof -
  have pages: "map (page \<circ> fst)
     (exchanges world0 (snd (TicketmasterIngestor_run paging_ext demo_ingestor ''DE'' 5 world0)))
     = [0, 1, 1, 2]"
    by code_simp
  have outcomes: "map (isl \<circ> snd)
     (exchanges world0 (snd (TicketmasterIngestor_run paging_ext demo_ingestor ''DE'' 5 world0)))
     = [False, True, False, False]"
    by code_simp
  have stops: "\<not> ends_pagination page_body 0" "\<not> ends_pagination page_body 1"
    "ends_pagination (PDict []) 2"
    "\<not> ends_pagination two_page_body 0" "ends_pagination two_page_body 1"
    by code_simp+
  have two: "map (page \<circ> fst)
     (exchanges world0 (snd (TicketmasterIngestor_run two_page_ext demo_ingestor ''DE'' 5 world0)))
     = [0, 1]"
    "fst (TicketmasterIngestor_run two_page_ext demo_ingestor ''DE'' 5 world0) = Inr 2"
    by code_simp+
  have one: "map (page \<circ> fst)
     (exchanges world0 (snd (TicketmasterIngestor_run paging_ext demo_ingestor ''DE'' 1 world0)))
     = [0]"
    by code_simp
  have "\<exists>k. int k \<le> 5 \<and> 1 \<le> k \<and>
      (page \<circ> fst) ` set (exchanges world0
         (snd (TicketmasterIngestor_run paging_ext demo_ingestor ''DE'' 5 world0))) = {0..<k}"
    using api_run_pagination [of paging_ext demo_ingestor "''DE''" 5 world0]
    unfolding Let_def by auto
  then show ?thesis
    using pages outcomes stops two one by blast
qed

text \<open>
  How an API run ends, for every environment. The last HTTP exchange decides
  (\<open>run_outcome\<close>). If the loop raises nothing, the run returns and its record is updated
  to success. If the loop raises an exception that leaves the transaction in order (the
  retries of a fetch are used up, a response or an event is not of the expected shape,
  the driver cannot send a row), the run raises that exception and its record is updated
  to failed, with the text of the exception and the time of the failure. If the loop
  raises an error of the database server, the transaction is aborted: the update of the
  handler raises in its turn, the run raises that second exception, and the record stays
  as it was inserted, running. In every case the staging table as committed extends the
  old one and holds, by key, the rows of every response the run loaded, and nothing is
  left uncommitted.
\<close>

lemma api_run_outcome:
  "(let res = TicketmasterIngestor_run X self cc max_pages w;
        w' = snd res;
        log0 = ingestion_log (committed w) @ [running_record (uuid4 X)]
    in (case run_outcome X (exchanges w w') of
          None \<Rightarrow>
            (\<exists>n. fst res = Inr n \<and>
               ingestion_log (committed w') =
                 map (\<lambda>r. if run_id r = uuid4 X
                        then r\<lparr>finished_at := Some (clock w'), records_loaded := Some n,
                               log_status := ''success''\<rparr>
                        else r) log0)
        | Some (e, ab) \<Rightarrow>
            if ab
            then fst res = Inl in_failed_transaction \<and> ingestion_log (committed w') = log0
            else fst res = Inl e \<and>
                 ingestion_log (committed w') =
                   map (\<lambda>r. if run_id r = uuid4 X
                          then r\<lparr>finished_at := Some (clock w'), log_status := ''failed'',
                                 error_message := Some (exc_str X e)\<rparr>
                          else r) log0) \<and>
       prefix (raw_events (committed w)) (raw_events (committed w')) \<and>
       (\<forall>x\<in>set (exchanges w w').
          row_key ` set (response_rows X (snd x)) \<subseteq> row_key ` set (raw_events (committed w'))) \<and>
       working w' = committed w')"
proof -
  let ?w1 = "commit (insert_log (running_record (uuid4 X)) (get_db_connection w))"
  let ?res = "TicketmasterIngestor_run X self cc max_pages w"
  let ?w' = "snd ?res"
  let ?log0 = "ingestion_log (committed w) @ [running_record (uuid4 X)]"
  obtain r w2 where loop: "run_pages X self cc (uuid4 X) max_pages 0 0 ?w1 = (r, w2)"
    by (cases "run_pages X self cc (uuid4 X) max_pages 0 0 ?w1")
  have g: "db_grows X ?w1 w2"
    and out: "case run_outcome X (exchanges ?w1 w2) of
          Some (e, ab) \<Rightarrow> r = Inl e \<and> aborted w2 = ab
        | None \<Rightarrow> \<not> isl r \<and> \<not> aborted w2"
    using run_pages_db_grows [OF loop start_world(4)] by blast+
  have ab: "isl r \<or> \<not> aborted w2"
    using out by (auto split: option.splits)
  note run = TicketmasterIngestor_run_loop [OF loop ab]
  have ex: "exchanges w ?w' = exchanges ?w1 w2"
    by (simp add: exchanges_def run(2) start_world)
  have log2: "ingestion_log (working w2) = ?log0"
    using g by (simp add: db_grows_def start_world)
  have s2: "synced w2" "prefix (raw_events (committed ?w1)) (raw_events (committed w2))"
    and rows: "\<forall>x\<in>set (exchanges ?w1 w2).
      row_key ` set (response_rows X (snd x)) \<subseteq> row_key ` set (raw_events (committed w2))"
    using g start_world(5) [of "running_record (uuid4 X)" w] by (simp_all add: db_grows_def)
  have logc: "ingestion_log (committed w2) = ?log0"
    using s2(1) log2 by (simp add: synced_def)
  have pre2: "prefix (raw_events (committed w2)) (raw_events (working w2))"
    using s2(1) by (simp add: synced_def)
  have ev': "raw_events (committed ?w') =
      (if aborted w2 then raw_events (committed w2) else raw_events (working w2))"
    by (simp add: run(5))
  have pre': "prefix (raw_events (committed w)) (raw_events (committed ?w'))"
    using s2(2) pre2 unfolding ev' by (auto simp: start_world intro: prefix_order.trans)
  have keys: "row_key ` set (raw_events (committed w2)) \<subseteq> row_key ` set (raw_events (committed ?w'))"
    using pre2 unfolding ev' by (auto dest: set_mono_prefix)
  have rows': "\<forall>x\<in>set (exchanges w ?w').
      row_key ` set (response_rows X (snd x)) \<subseteq> row_key ` set (raw_events (committed ?w'))"
    unfolding ex using rows keys by blast
  have rec: "case run_outcome X (exchanges w ?w') of
      None \<Rightarrow>
        (\<exists>n. fst ?res = Inr n \<and>
           ingestion_log (committed ?w') =
             map (\<lambda>r. if run_id r = uuid4 X
                    then r\<lparr>finished_at := Some (clock ?w'), records_loaded := Some n,
                           log_status := ''success''\<rparr>
                    else r) ?log0)
    | Some (e, ab) \<Rightarrow>
        if ab
        then fst ?res = Inl in_failed_transaction \<and> ingestion_log (committed ?w') = ?log0
        else fst ?res = Inl e \<and>
             ingestion_log (committed ?w') =
               map (\<lambda>r. if run_id r = uuid4 X
                      then r\<lparr>finished_at := Some (clock ?w'), log_status := ''failed'',
                             error_message := Some (exc_str X e)\<rparr>
                      else r) ?log0"
  proof (cases "run_outcome X (exchanges ?w1 w2)")
    case None
    then obtain n where "r = Inr n" "\<not> aborted w2"
      using out by (cases r) auto
    then show ?thesis
      unfolding ex None by (simp add: run(1,3,5) log2)
  next
    case (Some p)
    obtain e ab where p: "p = (e, ab)"
      by (cases p)
    have "r = Inl e" "aborted w2 = ab"
      using out Some p by simp_all
    then show ?thesis
      unfolding ex Some p by (simp add: run(1,3,5) log2 logc)
  qed
  show ?thesis
    unfolding Let_def by (intro conjI rec pre' rows' run(4))
qed

text \<open>
  A server that answers page 0 and is unreachable afterwards: the run raises
  \<open>RetryError\<close> after three requests for page 1, its record is marked failed at the time
  the retries ended, and the row of page 0 is in the staging table.
\<close>

lemma api_run_fetch_failure:
  "fst (TicketmasterIngestor_run failing_ext demo_ingestor ''DE'' 5 world0) =
     Inl (RetryError (Raised ''ConnectionError'' ''unreachable'')) \<and>
   ingestion_log (committed (snd (TicketmasterIngestor_run failing_ext demo_ingestor ''DE'' 5 world0)))
     = [\<lparr>run_id = ''run-1'', log_source = ''ticketmaster'', records_fetched = None,
         records_loaded = None, log_status = ''failed'', error_message = Some ''RetryError'',
         finished_at = Some 4\<rparr>] \<and>
   map raw_event_id
     (raw_events (committed (snd (TicketmasterIngestor_run failing_ext demo_ingestor ''DE'' 5 world0))))
     = [PStr ''E1''] \<and>
   map (page \<circ> fst)
     (exchanges world0 (snd (TicketmasterIngestor_run failing_ext demo_ingestor ''DE'' 5 world0)))
     = [0, 1, 1, 1]"
  by code_simp

text \<open>
  A server that answers page 0 with an event and page 1 with a JSON array: reading the
  events of the array raises \<open>AttributeError\<close>, the run raises it, its record is marked
  failed with that text, and the row of page 0 is in the staging table.
\<close>

lemma api_run_unexpected_error:
  "fst (TicketmasterIngestor_run array_body_ext demo_ingestor ''DE'' 5 world0) =
     Inl AttributeError \<and>
   ingestion_log (committed (snd (TicketmasterIngestor_run array_body_ext demo_ingestor ''DE'' 5 world0)))
     = [\<lparr>run_id = ''run-1'', log_source = ''ticketmaster'', records_fetched = None,
         records_loaded = None, log_status = ''failed'', error_message = Some ''AttributeError'',
         finished_at = Some 0\<rparr>] \<and>
   map raw_event_id
     (raw_events (committed (snd (TicketmasterIngestor_run array_body_ext demo_ingestor ''DE'' 5 world0))))
     = [PStr ''E1'']"
  by code_simp

text \<open>
  Claim C3. The claim does not hold of the code when the unexpected error is an error of
  the database server. The server answers page 0 with one event, which is loaded and
  committed, and page 1 with one event that the database refuses (its name is too long
  for the column). The insert raises, and the transaction of the connection is aborted.
  The handler does not roll back before it updates the run record, so its \<open>UPDATE\<close> raises
  in its turn: the run raises that second exception, not the one that triggered the
  failure, and the record of the run stays as it was inserted, with status running, no
  error message and no finish timestamp. The row of page 0 is in the staging table, as
  the claim says.
\<close>

theorem api_run_refused_batch:
  "map (page \<circ> fst)
     (exchanges world0 (snd (TicketmasterIngestor_run refusing_ext demo_ingestor ''DE'' 5 world0)))
     = [0, 1] \<and>
   run_outcome refusing_ext
     (exchanges world0 (snd (TicketmasterIngestor_run refusing_ext demo_ingestor ''DE'' 5 world0)))
     = Some (Raised ''StringDataRightTruncation''
               ''value too long for type character varying(3)'', True) \<and>
   fst (TicketmasterIngestor_run refusing_ext demo_ingestor ''DE'' 5 world0) =
     Inl (Raised ''InFailedSqlTransaction''
       ''current transaction is aborted, commands ignored until end of transaction block'') \<and>
   ingestion_log (committed (snd (TicketmasterIngestor_run refusing_ext demo_ingestor ''DE'' 5 world0)))
     = [\<lparr>run_id = ''run-1'', log_source = ''ticketmaster'', records_fetched = None,
         records_loaded = None, log_status = ''running'', error_message = None,
         finished_at = None\<rparr>] \<and>
   map raw_event_id
     (raw_events (committed (snd (TicketmasterIngestor_run refusing_ext demo_ingestor ''DE'' 5 world0))))
     = [PStr ''E1'']"
  by code_simp

subsection \<open>Idempotent ingestion\<close>

lemma keyed_prefix: "prefix tbl tbl' \<Longrightarrow> keyed tbl' \<Longrightarrow> keyed tbl"
  by (auto simp: keyed_def prefix_def)

lemma CsvIngestor_run_keyed:
  "keyed (raw_events (committed w)) \<Longrightarrow>
     keyed (raw_events (committed (snd (CsvIngestor_run X path w))))"
  by (simp add: CsvIngestor_run_events keyed_foldl split: sum.splits)

lemma TicketmasterIngestor_run_keyed:
  assumes "keyed (raw_events (committed w))"
  shows "keyed (raw_events (committed (snd (TicketmasterIngestor_run X self cc mp w))))"
proof -
  let ?w1 = "commit (insert_log (running_record (uuid4 X)) (get_db_connection w))"
  obtain r w2 where loop: "run_pages X self cc (uuid4 X) mp 0 0 ?w1 = (r, w2)"
    by (cases "run_pages X self cc (uuid4 X) mp 0 0 ?w1")
  have g: "db_grows X ?w1 w2"
    and out: "case run_outcome X (exchanges ?w1 w2) of
          Some (e, ab) \<Rightarrow> r = Inl e \<and> aborted w2 = ab
        | None \<Rightarrow> \<not> isl r \<and> \<not> aborted w2"
    using run_pages_db_grows [OF loop start_world(4)] by blast+
  have ab: "isl r \<or> \<not> aborted w2"
    using out by (auto split: option.splits)
  have k2: "keyed (raw_events (working w2))"
    using g assms by (simp add: db_grows_def start_world)
  have "synced w2"
    using g start_world(5) [of "running_record (uuid4 X)" w] by (simp add: db_grows_def)
  then have "keyed (raw_events (committed w2))"
    using k2 by (auto simp: synced_def intro: keyed_prefix)
  then show ?thesis
    using k2 by (simp add: TicketmasterIngestor_run_loop(5) [OF loop ab])
qed

lemma ingest_all_keyed:
  "keyed (raw_events (committed w)) \<Longrightarrow> keyed (raw_events (committed (ingest_all invs w)))"
  unfolding ingest_all_def
proof (induction invs arbitrary: w)
  case Nil
  then show ?case by simp
next
  case (Cons i invs)
  have "keyed (raw_events (committed (ingest i w)))"
    using Cons.prems
    by (cases i) (simp_all add: CsvIngestor_run_keyed TicketmasterIngestor_run_keyed)
  then show ?case
    using Cons.IH by simp
qed

text \<open>
  Claim C1. Ingestion is idempotent on the staging table. Running the CSV ingestor on the
  same file a second time (under a new run id) leaves the committed staging table, and so
  its row count, as the first run left it; loading the rows of an API page a second time
  leaves the table as the first load left it. The reason is the insert itself: a row
  whose canonical id pair (source, source-native event id) is already in the table is
  skipped, the table is returned unchanged. And whatever sequence of CSV and API runs is
  executed, in whatever environments, a staging table that holds each pair at most once
  (as the empty one does) still holds each pair at most once afterwards.
\<close>

theorem ingestion_idempotent:
  "raw_events (committed (snd (CsvIngestor_run (X\<lparr>uuid4 := u\<rparr>) path
      (snd (CsvIngestor_run X path w))))) =
     raw_events (committed (snd (CsvIngestor_run X path w))) \<and>
   length (raw_events (committed (snd (CsvIngestor_run (X\<lparr>uuid4 := u\<rparr>) path
      (snd (CsvIngestor_run X path w)))))) =
     length (raw_events (committed (snd (CsvIngestor_run X path w)))) \<and>
   raw_events (committed (snd (load_to_raw X rows rid_b (snd (load_to_raw X rows rid w))))) =
     raw_events (committed (snd (load_to_raw X rows rid w))) \<and>
   length (raw_events (committed (snd (load_to_raw X rows rid_b (snd (load_to_raw X rows rid w)))))) =
     length (raw_events (committed (snd (load_to_raw X rows rid w)))) \<and>
   (\<forall>tbl r. row_key r \<in> row_key ` set tbl \<longrightarrow> insert_on_conflict_do_nothing tbl r = tbl) \<and>
   (keyed (raw_events (committed w)) \<longrightarrow> keyed (raw_events (committed (ingest_all invs w))))"
  by (simp add: csv_twice load_twice_committed ingest_all_keyed insert_on_conflict_do_nothing_def)

text \<open>
  A file of two rows with the same key is ingested twice, and the API is polled twice in
  between: one row per key is stored.
\<close>

theorem ingestion_idempotent_witness:
  "length (raw_events (committed (snd (CsvIngestor_run null_frame_ext ''events.csv'' world0)))) = 1 \<and>
   length (raw_events (committed (snd (CsvIngestor_run (null_frame_ext\<lparr>uuid4 := ''run-2''\<rparr>)
      ''events.csv'' (snd (CsvIngestor_run null_frame_ext ''events.csv'' world0)))))) = 1 \<and>
   keyed (raw_events (committed world0)) \<and>
   insert_on_conflict_do_nothing [csv_row null_frame_ext null_frame_row]
      (csv_row null_frame_ext null_frame_row) = [csv_row null_frame_ext null_frame_row] \<and>
   map row_key (raw_events (committed (ingest_all
      [CsvRun null_frame_ext ''events.csv'', ApiRun paging_ext demo_ingestor ''DE'' 5,
       CsvRun null_frame_ext ''events.csv'', ApiRun paging_ext demo_ingestor ''DE'' 5] world0))) =
     [(''csv'', PStr ''nan''), (''ticketmaster'', PStr ''E1'')] \<and>
   keyed (raw_events (committed (ingest_all
      [CsvRun null_frame_ext ''events.csv'', ApiRun paging_ext demo_ingestor ''DE'' 5,
       CsvRun null_frame_ext ''events.csv'', ApiRun paging_ext demo_ingestor ''DE'' 5] world0)))"
proof -
  have once: "length (raw_events (committed (snd (CsvIngestor_run null_frame_ext ''events.csv'' world0)))) = 1"
    by code_simp
  have start: "keyed (raw_events (committed world0))"
    by code_simp
  have keys: "map row_key (raw_events (committed (ingest_all
      [CsvRun null_frame_ext ''events.csv'', ApiRun paging_ext demo_ingestor ''DE'' 5,
       CsvRun null_frame_ext ''events.csv'', ApiRun paging_ext demo_ingestor ''DE'' 5] world0))) =
     [(''csv'', PStr ''nan''), (''ticketmaster'', PStr ''E1'')]"
    by code_simp
  note inst = ingestion_idempotent [where X = null_frame_ext and u = "''run-2''"
      and path = "''events.csv''" and w = world0 and rows = "[]" and rid = "''r''" and rid_b = "''r''"
      and invs = "[CsvRun null_frame_ext ''events.csv'', ApiRun paging_ext demo_ingestor ''DE'' 5,
        CsvRun null_frame_ext ''events.csv'', ApiRun paging_ext demo_ingestor ''DE'' 5]"]
  have twice: "length (raw_events (committed (snd (CsvIngestor_run (null_frame_ext\<lparr>uuid4 := ''run-2''\<rparr>)
      ''events.csv'' (snd (CsvIngestor_run null_frame_ext ''events.csv'' world0)))))) = 1"
    using inst once by simp
  have "keyed (raw_events (committed (ingest_all
      [CsvRun null_frame_ext ''events.csv'', ApiRun paging_ext demo_ingestor ''DE'' 5,
       CsvRun null_frame_ext ''events.csv'', ApiRun paging_ext demo_ingestor ''DE'' 5] world0)))"
    using inst start by blast
  moreover have "insert_on_conflict_do_nothing [csv_row null_frame_ext null_frame_row]
      (csv_row null_frame_ext null_frame_row) = [csv_row null_frame_ext null_frame_row]"
    using inst by simp
  ultimately show ?thesis
    using once twice start keys by blast
qed

subsection \<open>The orchestrator stops at the first failing stage\<close>

lemma logged_self [simp]: "logged w w = []"
  by (simp add: logged_def)

lemma logged_app: "out w' = out w @ ls \<Longrightarrow> logged w w' = ls"
  by (simp add: logged_def)

lemma marks_simps [simp]:
  "marks [] = []" "marks (xs @ ys) = marks xs @ marks ys"
  "marks (l # ls) = (if l \<in> set stage_marks then l # marks ls else marks ls)"
  by (simp_all add: marks_def)

lemma executed_not_mark [simp]: "(Info, ''Executed: '' @ p) \<notin> set stage_marks"
  by (simp add: stage_marks_def)

lemma error_not_mark [simp]: "(Error, s) \<notin> set stage_marks" "(Warning, s) \<notin> set stage_marks"
  by (simp_all add: stage_marks_def)

lemma bar_not_mark [simp]: "(Info, replicate 55 CHR ''='') \<notin> set stage_marks"
  by (simp add: stage_marks_def eval_nat_numeral)

lemma traces_bind:
  assumes m: "traces m S1 F1" and f: "\<And>v. traces (f v) S2 F2"
  shows "traces (bind_io m f) (S1 @ S2) (F1 \<union> (\<lambda>x. S1 @ x) ` F2)"
  unfolding traces_def
proof
  fix w
  obtain r w1 where mw: "m w = (r, w1)" by (cases "m w")
  have m1: "out w1 = out w @ logged w w1"
    and m2: "if isl r then marks (logged w w1) \<in> F1 else marks (logged w w1) = S1"
    using m mw unfolding traces_def by (metis fst_conv snd_conv)+
  show "out (snd (bind_io m f w)) = out w @ logged w (snd (bind_io m f w)) \<and>
        (if isl (fst (bind_io m f w)) then marks (logged w (snd (bind_io m f w))) \<in> F1 \<union> (\<lambda>x. S1 @ x) ` F2
         else marks (logged w (snd (bind_io m f w))) = S1 @ S2)"
  proof (cases r)
    case (Inl e)
    then have b: "bind_io m f w = (Inl e, w1)"
      by (simp add: bind_io_def mw)
    have "marks (logged w w1) \<in> F1"
      using m2 Inl by simp
    then show ?thesis
      unfolding b using m1 by simp
  next
    case (Inr v)
    then have b: "bind_io m f w = f v w1"
      by (simp add: bind_io_def mw)
    have f1: "out (snd (f v w1)) = out w1 @ logged w1 (snd (f v w1))"
      and f2: "if isl (fst (f v w1)) then marks (logged w1 (snd (f v w1))) \<in> F2
               else marks (logged w1 (snd (f v w1))) = S2"
      using f [of v] unfolding traces_def by blast+
    have o: "out (snd (f v w1)) = out w @ (logged w w1 @ logged w1 (snd (f v w1)))"
      using m1 f1 by simp
    have l: "logged w (snd (f v w1)) = logged w w1 @ logged w1 (snd (f v w1))"
      using o by (rule logged_app)
    have s1: "marks (logged w w1) = S1"
      using m2 Inr by simp
    show ?thesis
    proof (cases "isl (fst (f v w1))")
      case True
      then have "marks (logged w1 (snd (f v w1))) \<in> F2"
        using f2 by simp
      then show ?thesis
        unfolding b using True o by (simp add: l s1)
    next
      case False
      then have "marks (logged w1 (snd (f v w1))) = S2"
        using f2 by simp
      then show ?thesis
        unfolding b using False o by (simp add: l s1)
    qed
  qed
qed

lemma traces_lift_logger: "traces (lift_io (logger lv s)) (marks [(lv, s)]) {}"
  by (simp add: traces_def lift_io_def logger_def logged_def)

lemma traces_cur_execute: "traces (cur_execute X sql) [] {[]}"
  by (simp add: traces_def cur_execute_def logged_def split: sum.splits)

lemma traces_run_sql_file: "traces (run_sql_file X p) [] {[]}"
  by (simp add: traces_def run_sql_file_def bind_io_def lift_io_def cur_execute_def logger_def
      commit_def stage_marks_def logged_def split: sum.splits)

lemma traces_create_transform_schema: "traces (create_transform_schema X) [] {[]}"
  by (simp add: traces_def create_transform_schema_def bind_io_def lift_io_def cur_execute_def
      commit_def logged_def split: sum.splits)

lemma traces_weaken: "traces m S F \<Longrightarrow> S = S' \<Longrightarrow> F \<subseteq> F' \<Longrightarrow> traces m S' F'"
  unfolding traces_def by (metis subsetD)

lemma traces_step_transform:
  "traces (step_transform X) (take 2 stage_marks) {take 1 stage_marks}"
  unfolding step_transform_def
  by (rule traces_weaken [OF traces_bind [OF traces_lift_logger traces_bind
        [OF traces_create_transform_schema traces_bind [OF traces_run_sql_file
          traces_lift_logger]]]])
    (simp_all add: stage_marks_def)

lemma traces_step_load_facts:
  "traces (step_load_facts X) (take 2 (drop 2 stage_marks)) {take 1 (drop 2 stage_marks)}"
  unfolding step_load_facts_def
  by (rule traces_weaken [OF traces_bind [OF traces_lift_logger traces_bind
        [OF traces_run_sql_file traces_lift_logger]]])
    (simp_all add: stage_marks_def)

lemma traces_step_quality_checks:
  "traces (step_quality_checks X) (take 2 (drop 4 stage_marks)) {take 1 (drop 4 stage_marks)}"
  unfolding step_quality_checks_def
  by (rule traces_weaken [OF traces_bind [OF traces_lift_logger traces_bind
        [OF traces_run_sql_file traces_lift_logger]]])
    (simp_all add: stage_marks_def)

lemma traces_step_create_kpi_views:
  "traces (step_create_kpi_views X) (take 2 (drop 6 stage_marks)) {take 1 (drop 6 stage_marks)}"
  unfolding step_create_kpi_views_def
  by (rule traces_weaken [OF traces_bind [OF traces_lift_logger traces_bind
        [OF traces_run_sql_file traces_lift_logger]]])
    (simp_all add: stage_marks_def)

lemma summary_line_not_mark: "lq \<in> set queries \<Longrightarrow> summary_line X d lq \<notin> set stage_marks"
  by (auto simp: queries_def summary_line_def stage_marks_def ljust_def split: sum.splits)

lemma marks_summary_lines: "marks (map (summary_line X d) queries) = []"
  using summary_line_not_mark [of _ X d]
  by (simp add: marks_def filter_empty_conv)

lemma traces_print_pipeline_summary:
  "traces (print_pipeline_summary X) (take 1 (drop 8 stage_marks)) {}"
  by (simp add: traces_def print_pipeline_summary_def Let_def foldl_summary_query logger_def
      logged_def marks_summary_lines)
    (simp add: stage_marks_def)

lemma traces_main_try:
  "traces (main_try X) stage_marks
     {take 1 stage_marks, take 3 stage_marks, take 5 stage_marks, take 7 stage_marks}"
  unfolding main_try_def
  by (rule traces_weaken [OF traces_bind [OF traces_step_transform traces_bind
        [OF traces_step_load_facts traces_bind [OF traces_step_quality_checks traces_bind
          [OF traces_step_create_kpi_views traces_bind [OF traces_print_pipeline_summary
            traces_lift_logger]]]]]])
    (simp_all add: stage_marks_def)

lemma main_stages_marks:
  "(if isl (fst (main_stages X w))
    then marks (logged w (snd (main_stages X w))) \<in>
           {take 1 stage_marks, take 3 stage_marks, take 5 stage_marks, take 7 stage_marks}
    else marks (logged w (snd (main_stages X w))) = stage_marks) \<and>
   working (snd (main_stages X w)) = committed (snd (main_stages X w))"
proof -
  let ?w0 = "get_db_connection w"
  obtain r w1 where t: "main_try X ?w0 = (r, w1)" by (cases "main_try X ?w0")
  have o: "out w1 = out ?w0 @ logged ?w0 w1"
    and m: "if isl r then marks (logged ?w0 w1) \<in>
           {take 1 stage_marks, take 3 stage_marks, take 5 stage_marks, take 7 stage_marks}
         else marks (logged ?w0 w1) = stage_marks"
    using traces_main_try [of X] t unfolding traces_def by (metis fst_conv snd_conv)+
  have o': "out w1 = out w @ logged ?w0 w1"
    using o by (simp add: get_db_connection_def)
  show ?thesis
  proof (cases r)
    case (Inl e)
    have res: "main_stages X w = (Inl e, close (logger Error (''Pipeline failed at: '' @ exc_str X e) w1))"
      by (simp add: main_stages_def t Inl)
    have "out (close (logger Error (''Pipeline failed at: '' @ exc_str X e) w1)) =
        out w @ (logged ?w0 w1 @ [(Error, ''Pipeline failed at: '' @ exc_str X e)])"
      using o' by (simp add: close_def logger_def)
    then have "logged w (close (logger Error (''Pipeline failed at: '' @ exc_str X e) w1)) =
        logged ?w0 w1 @ [(Error, ''Pipeline failed at: '' @ exc_str X e)]"
      by (rule logged_app)
    then show ?thesis
      unfolding res using m Inl by (simp add: close_def)
  next
    case (Inr u)
    have res: "main_stages X w = (Inr (), close w1)"
      by (simp add: main_stages_def t Inr)
    have "out (close w1) = out w @ logged ?w0 w1"
      using o' by (simp add: close_def)
    then have "logged w (close w1) = logged ?w0 w1"
      by (rule logged_app)
    then show ?thesis
      unfolding res using m Inr by (simp add: close_def)
  qed
qed

lemma main_stages_raises:
  "main_try X (get_db_connection w) = (Inl e, w1) \<Longrightarrow>
     fst (main_stages X w) = Inl e \<and> committed (snd (main_stages X w)) = committed w1 \<and>
     sql_log (snd (main_stages X w)) = sql_log w1"
  by (simp add: main_stages_def close_def logger_def)

text \<open>
  The stages within \<open>main\<close>: with \<open>--skip-ingest\<close> the run is that of the stages, after
  the two lines of the banner; and when the ingestion step raises, \<open>main\<close> raises before a
  stage has started.
\<close>

lemma main_skip_ingest:
  "skip_ingest a \<Longrightarrow>
     main X a w =
       main_stages X (logger Info (''   Source: '' @ arg_source a)
         (logger Info ''Event Intelligence Data Warehouse - Pipeline Starting'' w))"
  by (simp add: main_def Let_def)

lemma main_ingest_raises:
  "\<not> skip_ingest a \<Longrightarrow>
   step_extract_load X (arg_source a) (arg_csv_path a)
     (logger Info (''   Source: '' @ arg_source a)
       (logger Info ''Event Intelligence Data Warehouse - Pipeline Starting'' w)) = (Inl e, w1) \<Longrightarrow>
   main X a w = (Inl e, w1)"
  by (simp add: main_def Let_def)

text \<open>
  Claim C2. The marks a run of the mandatory stages leaves in the log are a prefix of the
  fixed sequence: transform starts, transform completes, load_facts starts, load_facts
  completes, quality_checks starts and completes, create_reporting_views (the KPI views)
  starts and completes, the summary starts, the pipeline has completed. The prefix ends
  after the start of the first stage that raised (after 1, 3, 5 or 7 marks), or it is the
  whole sequence exactly when the run returns. So transform always starts, and each later
  stage starts if and only if the stage before it completed; the summary, once started,
  always lets the pipeline complete. When a stage raises, the run raises the same
  exception, and the committed database and the statements executed are those the
  failing stage left: no later stage and no compensating statement runs; closing the
  connection only drops what was not committed.
\<close>

theorem stages_fail_fast:
  "(let res = main_stages X w; ms = marks (logged w (snd res))
    in (ms = take 1 stage_marks \<or> ms = take 3 stage_marks \<or> ms = take 5 stage_marks \<or>
        ms = take 7 stage_marks \<or> ms = stage_marks) \<and>
       (fst res = Inr () \<longleftrightarrow> ms = stage_marks) \<and>
       (Info, ''STEP 3: Transform & build dimensions'') \<in> set ms \<and>
       ((Info, ''STEP 4: Load fact table'') \<in> set ms \<longleftrightarrow> (Success, ''Transform complete'') \<in> set ms) \<and>
       ((Info, ''STEP 5: Data quality checks'') \<in> set ms \<longleftrightarrow>
          (Success, ''Fact load complete'') \<in> set ms) \<and>
       ((Info, ''STEP 6: Create KPI views'') \<in> set ms \<longleftrightarrow>
          (Success, ''Quality checks complete'') \<in> set ms) \<and>
       ((Info, ''  PIPELINE SUMMARY'') \<in> set ms \<longleftrightarrow> (Success, ''KPI views ready'') \<in> set ms) \<and>
       ((Success, ''Pipeline completed successfully!'') \<in> set ms \<longleftrightarrow>
          (Info, ''  PIPELINE SUMMARY'') \<in> set ms) \<and>
       working (snd res) = committed (snd res)) \<and>
   (\<forall>e w1. step_transform X (get_db_connection w) = (Inl e, w1) \<longrightarrow>
      fst (main_stages X w) = Inl e \<and> committed (snd (main_stages X w)) = committed w1 \<and>
      sql_log (snd (main_stages X w)) = sql_log w1) \<and>
   (\<forall>e w1 w2. step_transform X (get_db_connection w) = (Inr (), w1) \<and>
      step_load_facts X w1 = (Inl e, w2) \<longrightarrow>
      fst (main_stages X w) = Inl e \<and> committed (snd (main_stages X w)) = committed w2 \<and>
      sql_log (snd (main_stages X w)) = sql_log w2) \<and>
   (\<forall>e w1 w2 w3. step_transform X (get_db_connection w) = (Inr (), w1) \<and>
      step_load_facts X w1 = (Inr (), w2) \<and> step_quality_checks X w2 = (Inl e, w3) \<longrightarrow>
      fst (main_stages X w) = Inl e \<and> committed (snd (main_stages X w)) = committed w3 \<and>
      sql_log (snd (main_stages X w)) = sql_log w3) \<and>
   (\<forall>e w1 w2 w3 w4. step_transform X (get_db_connection w) = (Inr (), w1) \<and>
      step_load_facts X w1 = (Inr (), w2) \<and> step_quality_checks X w2 = (Inr (), w3) \<and>
      step_create_kpi_views X w3 = (Inl e, w4) \<longrightarrow>
      fst (main_stages X w) = Inl e \<and> committed (snd (main_stages X w)) = committed w4 \<and>
      sql_log (snd (main_stages X w)) = sql_log w4)"
proof -
  let ?res = "main_stages X w"
  let ?ms = "marks (logged w (snd ?res))"
  note mm = main_stages_marks [of X w]
  have alt: "?ms = take 1 stage_marks \<or> ?ms = take 3 stage_marks \<or> ?ms = take 5 stage_marks \<or>
        ?ms = take 7 stage_marks \<or> ?ms = stage_marks"
    using mm by (auto split: if_splits)
  have ok: "fst ?res = Inr () \<longleftrightarrow> ?ms = stage_marks"
  proof (cases "fst ?res")
    case (Inl e)
    then have "?ms \<in> {take 1 stage_marks, take 3 stage_marks, take 5 stage_marks, take 7 stage_marks}"
      using mm by simp
    then have "?ms \<noteq> stage_marks"
      by (auto simp: stage_marks_def)
    then show ?thesis using Inl by simp
  next
    case (Inr u)
    then show ?thesis using mm by simp
  qed
  have mem: "(Info, ''STEP 3: Transform & build dimensions'') \<in> set ?ms"
    "(Info, ''STEP 4: Load fact table'') \<in> set ?ms \<longleftrightarrow> (Success, ''Transform complete'') \<in> set ?ms"
    "(Info, ''STEP 5: Data quality checks'') \<in> set ?ms \<longleftrightarrow> (Success, ''Fact load complete'') \<in> set ?ms"
    "(Info, ''STEP 6: Create KPI views'') \<in> set ?ms \<longleftrightarrow> (Success, ''Quality checks complete'') \<in> set ?ms"
    "(Info, ''  PIPELINE SUMMARY'') \<in> set ?ms \<longleftrightarrow> (Success, ''KPI views ready'') \<in> set ?ms"
    "(Success, ''Pipeline completed successfully!'') \<in> set ?ms \<longleftrightarrow> (Info, ''  PIPELINE SUMMARY'') \<in> set ?ms"
    using alt by (elim disjE; simp add: stage_marks_def)+
  have s1: "\<forall>e w1. step_transform X (get_db_connection w) = (Inl e, w1) \<longrightarrow>
      fst ?res = Inl e \<and> committed (snd ?res) = committed w1 \<and> sql_log (snd ?res) = sql_log w1"
    by (auto intro!: main_stages_raises simp: main_try_def bind_io_def)
  have s2: "\<forall>e w1 w2. step_transform X (get_db_connection w) = (Inr (), w1) \<and>
      step_load_facts X w1 = (Inl e, w2) \<longrightarrow>
      fst ?res = Inl e \<and> committed (snd ?res) = committed w2 \<and> sql_log (snd ?res) = sql_log w2"
    by (auto intro!: main_stages_raises simp: main_try_def bind_io_def)
  have s3: "\<forall>e w1 w2 w3. step_transform X (get_db_connection w) = (Inr (), w1) \<and>
      step_load_facts X w1 = (Inr (), w2) \<and> step_quality_checks X w2 = (Inl e, w3) \<longrightarrow>
      fst ?res = Inl e \<and> committed (snd ?res) = committed w3 \<and> sql_log (snd ?res) = sql_log w3"
    by (auto intro!: main_stages_raises simp: main_try_def bind_io_def)
  have s4: "\<forall>e w1 w2 w3 w4. step_transform X (get_db_connection w) = (Inr (), w1) \<and>
      step_load_facts X w1 = (Inr (), w2) \<and> step_quality_checks X w2 = (Inr (), w3) \<and>
      step_create_kpi_views X w3 = (Inl e, w4) \<longrightarrow>
      fst ?res = Inl e \<and> committed (snd ?res) = committed w4 \<and> sql_log (snd ?res) = sql_log w4"
    by (auto intro!: main_stages_raises simp: main_try_def bind_io_def)
  show ?thesis
    unfolding Let_def
    by (intro conjI alt ok mem s1 s2 s3 s4 mm [THEN conjunct2])
qed

text \<open>
  When the data-quality script fails, the log shows transform and load_facts started and
  completed and quality_checks started, and nothing after it; the last statement executed
  is the failing script. When every script succeeds, the whole sequence is logged.
\<close>

theorem stages_fail_fast_witness:
  "fst (main_stages bad_quality_ext world0) = Inl (Raised ''SyntaxError'' ''syntax error at or near'') \<and>
   marks (logged world0 (snd (main_stages bad_quality_ext world0))) = take 5 stage_marks \<and>
   sql_log (snd (main_stages bad_quality_ext world0)) =
     [''CREATE SCHEMA IF NOT EXISTS transform;'', ''CREATE SCHEMA IF NOT EXISTS reporting;'',
      ''transform/transform_events.sql'', ''files/load_facts.sql'', ''files/data_quality.sql''] \<and>
   fst (step_transform bad_quality_ext (get_db_connection world0)) = Inr () \<and>
   fst (step_load_facts bad_quality_ext
          (snd (step_transform bad_quality_ext (get_db_connection world0)))) = Inr () \<and>
   fst (step_quality_checks bad_quality_ext
          (snd (step_load_facts bad_quality_ext
             (snd (step_transform bad_quality_ext (get_db_connection world0)))))) =
     Inl (Raised ''SyntaxError'' ''syntax error at or near'') \<and>
   fst (main_stages demo_ext world0) = Inr () \<and>
   marks (logged world0 (snd (main_stages demo_ext world0))) = stage_marks \<and>
   working (snd (main_stages bad_quality_ext world0)) =
     committed (snd (main_stages bad_quality_ext world0))"
proof -
  have a: "fst (main_stages bad_quality_ext world0) =
      Inl (Raised ''SyntaxError'' ''syntax error at or near'')"
    by code_simp
  have b: "marks (logged world0 (snd (main_stages bad_quality_ext world0))) = take 5 stage_marks"
    by code_simp
  have c: "sql_log (snd (main_stages bad_quality_ext world0)) =
     [''CREATE SCHEMA IF NOT EXISTS transform;'', ''CREATE SCHEMA IF NOT EXISTS reporting;'',
      ''transform/transform_events.sql'', ''files/load_facts.sql'', ''files/data_quality.sql'']"
    by code_simp
  have d: "fst (step_transform bad_quality_ext (get_db_connection world0)) = Inr ()"
    "fst (step_load_facts bad_quality_ext
          (snd (step_transform bad_quality_ext (get_db_connection world0)))) = Inr ()"
    "fst (step_quality_checks bad_quality_ext
          (snd (step_load_facts bad_quality_ext
             (snd (step_transform bad_quality_ext (get_db_connection world0)))))) =
     Inl (Raised ''SyntaxError'' ''syntax error at or near'')"
    by code_simp+
  have e: "fst (main_stages demo_ext world0) = Inr ()"
    by (simp add: main_stages_def main_try_def step_transform_def step_load_facts_def
        step_quality_checks_def step_create_kpi_views_def create_transform_schema_def
        run_sql_file_def cur_execute_def bind_io_def lift_io_def print_pipeline_summary_def
        Let_def demo_ext_def)
  have f: "marks (logged world0 (snd (main_stages demo_ext world0))) = stage_marks"
    using stages_fail_fast [of demo_ext world0] e unfolding Let_def by blast
  have "working (snd (main_stages bad_quality_ext world0)) =
     committed (snd (main_stages bad_quality_ext world0))"
    using stages_fail_fast [of bad_quality_ext world0] unfolding Let_def by blast
  then show ?thesis
    using a b c d e f by blast
qed

end
